theory Spec2Isabelle
  imports Complex_Main "HOL-Library.List_Lexorder" "HOL-Library.Multiset"
begin

section \<open>Values and strings of the report builder\<close>

text \<open>
  A Python \<open>str\<close> is a sequence of Unicode code points, and \<open>len\<close> counts code
  points, so a string is modelled as the list of its code points. The Korean literals
  of \<open>streamlit_app.py\<close> are written out as code points; \<open>ascii\<close> embeds an ASCII
  literal.

  A Python \<open>float\<close> is modelled as the rational number it denotes, and the decimal
  literals of the source (\<open>3.8\<close>, \<open>0.25\<close>) as the exact decimal fractions. A
  value that may be \<open>None\<close> is an \<open>option\<close>.
\<close>

type_synonym ustr = "nat list"

definition ascii :: "string \<Rightarrow> ustr" where
  "ascii s = map of_char s"

subsection \<open>Grade labels (\<open>build_report._grade\<close>)\<close>

text \<open>The five labels returned by \<open>_grade\<close>: \<open>"N/A"\<close>, and the Korean words for
  excellent (U+C6B0 U+C218), good (U+C591 U+D638), fair (U+BCF4 U+D1B5) and
  needs improvement (U+AC1C U+C120 U+0020 U+D544 U+C694).\<close>

definition GRADE_NA :: ustr where
  "GRADE_NA = [78, 47, 65]"

definition GRADE_EXCELLENT :: ustr where
  "GRADE_EXCELLENT = [50864, 49688]"

definition GRADE_GOOD :: ustr where
  "GRADE_GOOD = [50577, 54840]"

definition GRADE_FAIR :: ustr where
  "GRADE_FAIR = [48372, 53685]"

definition GRADE_NEEDS_IMPROVEMENT :: ustr where
  "GRADE_NEEDS_IMPROVEMENT = [44060, 49440, 32, 54596, 50836]"

text \<open>
  \<^verbatim>\<open>
  def _grade(score: float | None) -> str:
      if score is None: return "N/A"
      if score >= 3.8:  return <excellent>
      if score >= 3.4:  return <good>
      if score >= 3.0:  return <fair>
      return <needs improvement>
  \<close>
\<close>

definition grade :: "rat option \<Rightarrow> ustr" where
  "grade score =
     (case score of
        None \<Rightarrow> GRADE_NA
      | Some s \<Rightarrow>
          if s \<ge> 3.8 then GRADE_EXCELLENT
          else if s \<ge> 3.4 then GRADE_GOOD
          else if s \<ge> 3.0 then GRADE_FAIR
          else GRADE_NEEDS_IMPROVEMENT)"

section \<open>Library functions the source calls\<close>

text \<open>
  The functions of Python and pandas that the modelled code calls and that depend on
  the Unicode character database or on pandas' parser are parameters of the model:
  \<^item> \<open>py_isspace\<close>: \<open>str.isspace\<close> of one code point, the whitespace of \<open>str.strip()\<close>
    and \<open>str.split()\<close> and the class \<open>\s\<close> of \<open>re\<close>;
  \<^item> \<open>py_lower\<close> and \<open>py_upper\<close>: \<open>str.lower\<close> and \<open>str.upper\<close>;
  \<^item> \<open>py_isalnum\<close>: \<open>str.isalnum\<close> of one code point (the class \<open>\w\<close> of \<open>re\<close> is
    \<open>isalnum\<close> or the underscore);
  \<^item> \<open>py_isdecimal\<close>: \<open>str.isdecimal\<close> of one code point, the class \<open>\d\<close> of \<open>re\<close>;
  \<^item> \<open>pd_to_numeric\<close>: \<open>pandas.to_numeric(errors="coerce")\<close> on one text value, \<open>None\<close>
    for NaN;
  \<^item> \<open>pd_contains\<close>: \<open>Series.str.contains(pat, case=False, na=False)\<close> on one text value.
  The theorems hold for every such library.
\<close>

record pylib =
  py_isspace :: "nat \<Rightarrow> bool"
  py_lower :: "ustr \<Rightarrow> ustr"
  py_upper :: "ustr \<Rightarrow> ustr"
  py_isalnum :: "nat \<Rightarrow> bool"
  py_isdecimal :: "nat \<Rightarrow> bool"
  pd_to_numeric :: "ustr \<Rightarrow> rat option"
  pd_contains :: "ustr \<Rightarrow> ustr \<Rightarrow> bool"

text \<open>\<open>s.strip()\<close>, \<open>s.split()\<close> and \<open>' '.join(words)\<close>.\<close>

definition strip :: "pylib \<Rightarrow> ustr \<Rightarrow> ustr" where
  "strip L s = rev (dropWhile (py_isspace L) (rev (dropWhile (py_isspace L) s)))"

fun split_acc :: "pylib \<Rightarrow> ustr \<Rightarrow> ustr \<Rightarrow> ustr list" where
  "split_acc L w [] = (if w = [] then [] else [w])"
| "split_acc L w (c # cs) =
     (if py_isspace L c then (if w = [] then split_acc L [] cs else w # split_acc L [] cs)
      else split_acc L (w @ [c]) cs)"

definition split_ws :: "pylib \<Rightarrow> ustr \<Rightarrow> ustr list" where
  "split_ws L s = split_acc L [] s"

fun join_space :: "ustr list \<Rightarrow> ustr" where
  "join_space [] = []"
| "join_space [w] = w"
| "join_space (w # ws) = w @ [32] @ join_space ws"

text \<open>\<open>p in s\<close> for two strings: \<open>p\<close> occurs in \<open>s\<close> as a run of consecutive
  characters.\<close>

fun starts_with :: "ustr \<Rightarrow> ustr \<Rightarrow> bool" where
  "starts_with [] s = True"
| "starts_with (p # ps) [] = False"
| "starts_with (p # ps) (c # cs) = (p = c \<and> starts_with ps cs)"

fun occurs_in :: "ustr \<Rightarrow> ustr \<Rightarrow> bool" where
  "occurs_in p [] = (p = [])"
| "occurs_in p (c # cs) = (starts_with p (c # cs) \<or> occurs_in p cs)"

text \<open>Python's \<open>round(x, n)\<close> rounds to \<open>n\<close> decimals, an exact tie to the even
  neighbour; here on the exact rational value.\<close>

definition round_half_even :: "rat \<Rightarrow> int" where
  "round_half_even x =
     (let f = \<lfloor>x\<rfloor>; d = x - of_int f
      in if d < 1 / 2 then f else if d > 1 / 2 then f + 1
         else if even f then f else f + 1)"

definition py_round :: "rat \<Rightarrow> nat \<Rightarrow> rat" where
  "py_round x n = of_int (round_half_even (x * 10 ^ n)) / 10 ^ n"

section \<open>Respondent tables\<close>

text \<open>
  A pandas \<open>DataFrame\<close> of survey answers: the column names, and the rows in table
  order, each with its index label and one cell per column. A cell is the text of the
  answer, or \<open>None\<close> for a missing value (NaN). \<open>df[c]\<close> is \<open>series df c\<close>; the source
  reads a column only after checking \<open>c in df.columns\<close>.
\<close>

type_synonym cell = "ustr option"

record dataframe =
  columns :: "ustr list"
  rows :: "(nat \<times> cell list) list"

fun col_pos :: "ustr list \<Rightarrow> ustr \<Rightarrow> nat option" where
  "col_pos [] c = None"
| "col_pos (x # xs) c = (if x = c then Some 0 else map_option Suc (col_pos xs c))"

definition cell_at :: "dataframe \<Rightarrow> ustr \<Rightarrow> nat \<times> cell list \<Rightarrow> cell" where
  "cell_at df c r =
     (case col_pos (columns df) c of
        None \<Rightarrow> None
      | Some i \<Rightarrow> if i < length (snd r) then snd r ! i else None)"

definition series :: "dataframe \<Rightarrow> ustr \<Rightarrow> cell list" where
  "series df c = map (cell_at df c) (rows df)"

definition dropna :: "cell list \<Rightarrow> ustr list" where
  "dropna cs = List.map_filter id cs"

definition len_df :: "dataframe \<Rightarrow> nat" where
  "len_df df = length (rows df)"

section \<open>Unit Grouper (\<open>group_data_by_unit\<close>)\<close>

text \<open>
  \<open>df.groupby(c)\<close> iterates over the distinct non-missing values of column \<open>c\<close> in
  ascending order (pandas sorts the group keys by default and drops missing keys; text
  keys compare as Python strings, code point by code point), and yields for each key
  the rows holding it, in table order and with their index labels.
\<close>

definition group_keys :: "dataframe \<Rightarrow> ustr \<Rightarrow> ustr list" where
  "group_keys df c = sort (remdups (dropna (series df c)))"

definition team_rows :: "dataframe \<Rightarrow> ustr \<Rightarrow> ustr \<Rightarrow> dataframe" where
  "team_rows df c k = df\<lparr>rows := filter (\<lambda>r. cell_at df c r = Some k) (rows df)\<rparr>"

definition groupby :: "dataframe \<Rightarrow> ustr \<Rightarrow> (ustr \<times> dataframe) list" where
  "groupby df c = map (\<lambda>k. (k, team_rows df c k)) (group_keys df c)"

text \<open>A Python \<open>dict\<close> keeps its keys in insertion order; \<open>d[k] = v\<close> overwrites the
  value of a key already present and appends a new key otherwise.\<close>

fun dict_set :: "('k \<times> 'v) list \<Rightarrow> 'k \<Rightarrow> 'v \<Rightarrow> ('k \<times> 'v) list" where
  "dict_set [] k v = [(k, v)]"
| "dict_set ((k', v') # d) k v =
     (if k' = k then (k, v) # d else (k', v') # dict_set d k v)"

text \<open>The literals of the function: the group types \<open>GROUP_ALL\<close> (U+C804 U+CCB4, whole)
  and \<open>GROUP_TEAM\<close> (U+D300 U+BCC4, by team), and the key \<open>WHOLE_ORG\<close> of the single
  whole-organization group (U+C804 U+CCB4 U+0020 U+C870 U+C9C1).\<close>

definition GROUP_ALL :: ustr where
  "GROUP_ALL = [51204, 52404]"

definition GROUP_TEAM :: ustr where
  "GROUP_TEAM = [54016, 48324]"

definition WHOLE_ORG :: ustr where
  "WHOLE_ORG = [51204, 52404, 32, 51312, 51649]"

text \<open>The two messages the function shows with \<open>st.error\<close> before it falls back.\<close>

datatype warning = MissingGroupColumn "ustr option" | NoValidTeams

text \<open>
  \<^verbatim>\<open>
  for team_name, team_df in df.groupby(group_column):
      if len(team_df) < 3:
          continue
      grouped_data[str(team_name)] = team_df.copy()
  \<close>
\<close>

fun team_loop :: "(ustr \<times> dataframe) list \<Rightarrow> (ustr \<times> dataframe) list
    \<Rightarrow> (ustr \<times> dataframe) list" where
  "team_loop [] grouped_data = grouped_data"
| "team_loop ((team_name, team_df) # gs) grouped_data =
     (if len_df team_df < 3 then team_loop gs grouped_data
      else team_loop gs (dict_set grouped_data team_name team_df))"

text \<open>
  \<^verbatim>\<open>
  def group_data_by_unit(df, group_type, group_column=None) -> dict:
      if group_type == GROUP_ALL:
          return {WHOLE_ORG: df.copy()}
      elif group_type == GROUP_TEAM:
          if not group_column or group_column not in df.columns:
              st.error(...)
              return {WHOLE_ORG: df.copy()}
          grouped_data = {}
          <team loop>
          if not grouped_data:
              st.error(...)
              return {WHOLE_ORG: df.copy()}
          return grouped_data
      return {WHOLE_ORG: df.copy()}
  \<close>
  The result is the list of messages shown and the dictionary returned.
\<close>

definition group_data_by_unit ::
  "dataframe \<Rightarrow> ustr \<Rightarrow> ustr option \<Rightarrow> warning list \<times> (ustr \<times> dataframe) list" where
  "group_data_by_unit df group_type group_column =
     (if group_type = GROUP_ALL then ([], [(WHOLE_ORG, df)])
      else if group_type = GROUP_TEAM then
        (case group_column of
           None \<Rightarrow> ([MissingGroupColumn group_column], [(WHOLE_ORG, df)])
         | Some c \<Rightarrow>
             if c = [] \<or> c \<notin> set (columns df)
             then ([MissingGroupColumn group_column], [(WHOLE_ORG, df)])
             else
               (let grouped_data = team_loop (groupby df c) []
                in if grouped_data = [] then ([NoValidTeams], [(WHOLE_ORG, df)])
                   else ([], grouped_data)))
      else ([], [(WHOLE_ORG, df)]))"

subsection \<open>Notions used to state the grouper's properties\<close>

text \<open>The number of rows whose grouping value is \<open>k\<close>, and the rows whose grouping value
  is present and shared by at least 3 rows.\<close>

definition group_size :: "dataframe \<Rightarrow> ustr \<Rightarrow> ustr \<Rightarrow> nat" where
  "group_size df c k = length (filter (\<lambda>r. cell_at df c r = Some k) (rows df))"

definition retained_rows :: "dataframe \<Rightarrow> ustr \<Rightarrow> (nat \<times> cell list) set" where
  "retained_rows df c =
     {r \<in> set (rows df). \<exists>k. cell_at df c r = Some k \<and> 3 \<le> group_size df c k}"

text \<open>Example tables with a single column \<open>DEPT\<close>.\<close>

definition DEPT :: ustr where
  "DEPT = ascii ''DEPT''"

definition TEAM_A :: ustr where
  "TEAM_A = ascii ''A''"

definition TEAM_B :: ustr where
  "TEAM_B = ascii ''B''"

definition TEAM_C :: ustr where
  "TEAM_C = ascii ''C''"

definition ex_two_small_teams :: dataframe where
  "ex_two_small_teams = \<lparr>columns = [DEPT], rows = [(0, [Some TEAM_A]), (1, [Some TEAM_B])]\<rparr>"

definition ex_one_team :: dataframe where
  "ex_one_team = \<lparr>columns = [DEPT],
     rows = [(0, [Some TEAM_A]), (1, [Some TEAM_A]), (2, [Some TEAM_A])]\<rparr>"

definition ex_teams :: dataframe where
  "ex_teams = \<lparr>columns = [DEPT],
     rows = [(0, [Some TEAM_B]), (1, [Some TEAM_B]), (2, [Some TEAM_B]),
             (3, [Some TEAM_A]), (4, [Some TEAM_A]), (5, [Some TEAM_A]),
             (6, [None]), (7, [Some TEAM_C]), (8, [Some TEAM_C])]\<rparr>"

section \<open>Item and category aggregation (\<open>build_report\<close>)\<close>

subsection \<open>Score Normalizer (\<open>to_num\<close>)\<close>

text \<open>
  \<open>LIKERT_MAP\<close>, the eleven Korean answer labels of the source in the source's order
  with their scores 1 to 5.
\<close>

definition LIKERT_MAP :: "(ustr \<times> rat) list" where
  "LIKERT_MAP =
     [([47588, 50864, 32, 44536, 47111, 51648, 32, 50506, 45796], 1),
      ([51204, 54784, 32, 44536, 47111, 51648, 32, 50506, 45796], 1),
      ([47588, 50864, 44536, 47111, 51648, 50506, 45796], 1),
      ([44536, 47111, 51648, 32, 50506, 45796], 2),
      ([44536, 47111, 51648, 50506, 45796], 2),
      ([48372, 53685, 51060, 45796], 3),
      ([48372, 53685], 3),
      ([44536, 47111, 45796], 4),
      ([47588, 50864, 32, 44536, 47111, 45796], 5),
      ([47588, 50864, 44536, 47111, 45796], 5),
      ([47588, 50864, 32, 44536, 47111, 45796, 46], 5)]"

text \<open>
  \<^verbatim>\<open>
  def to_num(series):
      s = series.astype(str).str.strip().replace(LIKERT_MAP)
      return pd.to_numeric(s, errors="coerce")
  \<close>
  A missing cell becomes the text \<open>nan\<close> under \<open>astype(str)\<close>, which \<open>to_numeric\<close>
  reads as NaN again. \<open>replace\<close> substitutes a value that is equal to a key of the
  map.
\<close>

definition to_num_cell :: "pylib \<Rightarrow> cell \<Rightarrow> rat option" where
  "to_num_cell L c =
     (case c of
        None \<Rightarrow> None
      | Some t \<Rightarrow>
          (let s = strip L t
           in case map_of LIKERT_MAP s of
                Some n \<Rightarrow> Some n
              | None \<Rightarrow> pd_to_numeric L s))"

definition to_num :: "pylib \<Rightarrow> cell list \<Rightarrow> rat option list" where
  "to_num L s = map (to_num_cell L) s"

definition dropna_num :: "rat option list \<Rightarrow> rat list" where
  "dropna_num s = List.map_filter id s"

definition mean :: "rat list \<Rightarrow> rat" where
  "mean xs = sum_list xs / of_nat (length xs)"

subsection \<open>Reference index\<close>

text \<open>
  One row of the reference index \<open>index_df\<close>: the cells of its columns for the header
  name, the question text, the top-level category and the sub-category. \<open>str(x)\<close> of a
  missing cell is the text \<open>nan\<close>.
\<close>

record index_entry =
  header_name :: cell
  question_name :: cell
  major :: cell
  minor :: cell

definition str_of_cell :: "cell \<Rightarrow> ustr" where
  "str_of_cell c = (case c of None \<Rightarrow> ascii ''nan'' | Some s \<Rightarrow> s)"

text \<open>The column \<open>major_clean\<close> that \<open>build_report\<close> adds to the index:
  \<open>astype(str)\<close>, \<open>strip\<close>, and every run of whitespace replaced by one space.\<close>

definition major_clean :: "pylib \<Rightarrow> index_entry \<Rightarrow> ustr" where
  "major_clean L e = join_space (split_ws L (strip L (str_of_cell (major e))))"

subsection \<open>Item Aggregator (the body of the item loop)\<close>

text \<open>The dictionary built for one item. \<open>average\<close> and \<open>benchmark\<close> hold a float or
  \<open>None\<close>; the two nested dictionaries are flattened into the record.\<close>

record item_score =
  question :: ustr
  header :: ustr
  subcategory :: ustr
  average :: "rat option"
  benchmark :: "rat option"
  veryLow :: rat
  low :: rat
  medium :: rat
  high :: rat
  veryHigh :: rat
  neg_pct :: rat
  mid_pct :: rat
  pos_pct :: rat

text \<open>
  \<^verbatim>\<open>
  total = len(valid)
  for v in [1, 2, 3, 4, 5]:
      cnt = int((valid == v).sum())
      dist_pcts[v] = round(cnt / total * 100, 1) if total > 0 else 0.0
  \<close>
\<close>

definition dist_pct :: "rat list \<Rightarrow> rat \<Rightarrow> rat" where
  "dist_pct valid v =
     (let total = length valid; cnt = length (filter (\<lambda>x. x = v) valid)
      in if total > 0 then py_round (of_nat cnt / of_nat total * 100) 1 else 0)"

text \<open>
  \<^verbatim>\<open>
  col_name = str(row.get(HEADER, "")).strip()
  q_text = str(row.get(QUESTION, col_name)).strip()
  sub_cat = str(row.get(MINOR, "")).strip()
  item_avg = None
  item_bm = 0.0
  dist_pcts = {1: 0.0, 2: 0.0, 3: 0.0, 4: 0.0, 5: 0.0}
  neg_pct = mid_pct = pos_pct = 0.0
  if col_name and col_name in df.columns:
      num = to_num(df[col_name])
      valid = num.dropna()
      if not valid.empty:
          item_avg = float(valid.mean())
          bm = max(0.0, min(5.0, item_avg - 0.25))
          item_bm = round(bm, 2)
          sub_scores.append(item_avg)
          all_scores.append(item_avg)
          <distribution loop>
          neg_pct = round(dist_pcts[1] + dist_pcts[2], 1)
          mid_pct = round(dist_pcts[3], 1)
          pos_pct = round(dist_pcts[4] + dist_pcts[5], 1)
  sub_items.append({..., "average": round(item_avg, 2) if item_avg is not None else None,
                    "benchmark": item_bm, ...})
  \<close>
  \<open>item_valid\<close> is \<open>valid\<close>, \<open>item_avg\<close> the unrounded mean that is appended to
  \<open>sub_scores\<close> and \<open>all_scores\<close>, and \<open>item_dict\<close> the dictionary appended to
  \<open>sub_items\<close>.
\<close>

definition col_name_of :: "pylib \<Rightarrow> index_entry \<Rightarrow> ustr" where
  "col_name_of L row = strip L (str_of_cell (header_name row))"

definition item_valid :: "pylib \<Rightarrow> dataframe \<Rightarrow> index_entry \<Rightarrow> rat list" where
  "item_valid L df row =
     (let col_name = col_name_of L row
      in if col_name \<noteq> [] \<and> col_name \<in> set (columns df)
         then dropna_num (to_num L (series df col_name)) else [])"

definition item_avg :: "pylib \<Rightarrow> dataframe \<Rightarrow> index_entry \<Rightarrow> rat option" where
  "item_avg L df row =
     (let valid = item_valid L df row in if valid \<noteq> [] then Some (mean valid) else None)"

definition item_dict :: "pylib \<Rightarrow> dataframe \<Rightarrow> index_entry \<Rightarrow> item_score" where
  "item_dict L df row =
     (let col_name = col_name_of L row;
          q_text = strip L (str_of_cell (question_name row));
          sub_cat = strip L (str_of_cell (minor row));
          valid = item_valid L df row
      in if valid \<noteq> [] then
           (let avg = mean valid;
                bm = max 0 (min 5 (avg - 0.25));
                d1 = dist_pct valid 1; d2 = dist_pct valid 2; d3 = dist_pct valid 3;
                d4 = dist_pct valid 4; d5 = dist_pct valid 5
            in \<lparr>question = q_text, header = col_name, subcategory = sub_cat,
                 average = Some (py_round avg 2), benchmark = Some (py_round bm 2),
                 veryLow = d1, low = d2, medium = d3, high = d4, veryHigh = d5,
                 neg_pct = py_round (d1 + d2) 1, mid_pct = py_round d3 1,
                 pos_pct = py_round (d4 + d5) 1\<rparr>)
         else
           \<lparr>question = q_text, header = col_name, subcategory = sub_cat,
            average = None, benchmark = Some 0,
            veryLow = 0, low = 0, medium = 0, high = 0, veryHigh = 0,
            neg_pct = 0, mid_pct = 0, pos_pct = 0\<rparr>)"

subsection \<open>Category Aggregator (the loops over sub-categories and categories)\<close>

text \<open>The dictionaries appended to \<open>subcategories\<close> and to \<open>categories\<close> (the
  constant description text of a category is left out).\<close>

record subcategory_score =
  sc_name :: ustr
  sc_average :: "rat option"
  sc_items :: "item_score list"
  sc_item_count :: nat

record category_score =
  cat_name :: ustr
  cat_average :: "rat option"
  cat_subcategories :: "subcategory_score list"
  cat_items :: "item_score list"

text \<open>\<open>round(sum(scores) / len(scores), 2) if scores else None\<close>.\<close>

definition avg_round2 :: "rat list \<Rightarrow> rat option" where
  "avg_round2 scores =
     (if scores \<noteq> [] then Some (py_round (sum_list scores / of_nat (length scores)) 2)
      else None)"

text \<open>The item loop \<open>for _, row in sub_qdf.iterrows()\<close>, with the three lists it
  appends to.\<close>

fun item_loop :: "pylib \<Rightarrow> dataframe \<Rightarrow> index_entry list
    \<Rightarrow> item_score list \<times> rat list \<times> rat list \<Rightarrow> item_score list \<times> rat list \<times> rat list" where
  "item_loop L df [] st = st"
| "item_loop L df (row # sub_qdf) (sub_items, sub_scores, all_scores) =
     item_loop L df sub_qdf
       (sub_items @ [item_dict L df row],
        (case item_avg L df row of None \<Rightarrow> sub_scores | Some a \<Rightarrow> sub_scores @ [a]),
        (case item_avg L df row of None \<Rightarrow> all_scores | Some a \<Rightarrow> all_scores @ [a]))"

text \<open>\<open>Series.unique()\<close>: the distinct values in order of first appearance, a missing
  value among them once.\<close>

fun unique_acc :: "'a list \<Rightarrow> 'a list \<Rightarrow> 'a list" where
  "unique_acc seen [] = []"
| "unique_acc seen (x # xs) =
     (if x \<in> set seen then unique_acc seen xs else x # unique_acc (x # seen) xs)"

definition unique :: "'a list \<Rightarrow> 'a list" where
  "unique xs = unique_acc [] xs"

text \<open>
  \<^verbatim>\<open>
  for sub_category in qdf[MINOR].unique():
      if pd.isna(sub_category):
          continue
      sub_mask = qdf[MINOR] == sub_category
      sub_qdf = qdf[sub_mask].copy()
      sub_items = []
      sub_scores = []
      <item loop>
      sub_avg = round(sum(sub_scores) / len(sub_scores), 2) if sub_scores else None
      subcategories.append({"name": sub_category, "average": sub_avg,
                            "items": sub_items, "item_count": len(sub_items)})
  \<close>
\<close>

fun sub_loop :: "pylib \<Rightarrow> dataframe \<Rightarrow> index_entry list \<Rightarrow> cell list
    \<Rightarrow> subcategory_score list \<times> rat list \<Rightarrow> subcategory_score list \<times> rat list" where
  "sub_loop L df qdf [] st = st"
| "sub_loop L df qdf (None # rest) st = sub_loop L df qdf rest st"
| "sub_loop L df qdf (Some sub_category # rest) (subcategories, all_scores) =
     (let sub_qdf = filter (\<lambda>row. minor row = Some sub_category) qdf
      in case item_loop L df sub_qdf ([], [], all_scores) of
           (sub_items, sub_scores, all_scores') \<Rightarrow>
             sub_loop L df qdf rest
               (subcategories @
                  [\<lparr>sc_name = sub_category, sc_average = avg_round2 sub_scores,
                    sc_items = sub_items, sc_item_count = length sub_items\<rparr>],
                all_scores'))"

text \<open>
  \<^verbatim>\<open>
  for big in ["Input", "Process", "Output"]:
      mask = idx[MAJOR_CLEAN].str.contains(big, case=False, na=False)
      qdf = idx[mask].copy()
      if qdf.empty:
          continue
      subcategories = []
      all_scores = []
      <sub-category loop>
      cat_avg = round(sum(all_scores) / len(all_scores), 2) if all_scores else None
      ipo_avgs[big] = cat_avg
      categories.append({"title": big, "name": big, "average": cat_avg,
          "subcategories": subcategories,
          "items": [item for subcat in subcategories for item in subcat["items"]]})
  \<close>
  \<open>build_category\<close> is one round of this loop: \<open>None\<close> when the round is skipped.
\<close>

definition category_rows :: "pylib \<Rightarrow> index_entry list \<Rightarrow> ustr \<Rightarrow> index_entry list" where
  "category_rows L idx big = filter (\<lambda>row. pd_contains L big (major_clean L row)) idx"

definition build_category ::
  "pylib \<Rightarrow> dataframe \<Rightarrow> index_entry list \<Rightarrow> ustr \<Rightarrow> category_score option" where
  "build_category L df idx big =
     (let qdf = category_rows L idx big
      in if qdf = [] then None
         else
           (case sub_loop L df qdf (unique (map minor qdf)) ([], []) of
              (subcategories, all_scores) \<Rightarrow>
                Some \<lparr>cat_name = big, cat_average = avg_round2 all_scores,
                      cat_subcategories = subcategories,
                      cat_items = concat (map sc_items subcategories)\<rparr>))"

definition IPO :: "ustr list" where
  "IPO = [ascii ''Input'', ascii ''Process'', ascii ''Output'']"

definition categories :: "pylib \<Rightarrow> dataframe \<Rightarrow> index_entry list \<Rightarrow> category_score list" where
  "categories L df idx = List.map_filter (build_category L df idx) IPO"

text \<open>\<open>ipo_avgs.get(big)\<close> for one of the three category names.\<close>

definition ipo_avgs :: "pylib \<Rightarrow> dataframe \<Rightarrow> index_entry list \<Rightarrow> ustr \<Rightarrow> rat option" where
  "ipo_avgs L df idx big =
     (case build_category L df idx big of None \<Rightarrow> None | Some c \<Rightarrow> cat_average c)"

subsection \<open>Notions used to state the Category Aggregator's properties\<close>

text \<open>The index rows of a category that have a sub-category label, and the index rows
  with a given sub-category label (\<open>sub_qdf\<close> in the source).\<close>

definition labelled_rows :: "pylib \<Rightarrow> index_entry list \<Rightarrow> ustr \<Rightarrow> index_entry list" where
  "labelled_rows L idx big = filter (\<lambda>row. minor row \<noteq> None) (category_rows L idx big)"

definition sub_rows :: "index_entry list \<Rightarrow> ustr \<Rightarrow> index_entry list" where
  "sub_rows qdf k = filter (\<lambda>row. minor row = Some k) qdf"

section \<open>A concrete library for the examples\<close>

text \<open>
  The closed examples below need the library at concrete texts. \<open>ex_lib\<close> gives the
  behaviour of CPython and pandas on the texts the examples use: ASCII and Hangul
  characters, and numbers written as decimal digits with an optional fraction.
  \<open>ex_isspace\<close> lists every code point for which \<open>str.isspace\<close> holds. ASCII letters
  are the only cased characters among these, Hangul syllables (U+AC00 to U+D7A3) are
  alphanumeric, and \<open>str.contains(pat, case=False)\<close> with a pattern of ASCII letters
  looks for the pattern, letters compared without case.
\<close>

definition ex_isspace :: "nat \<Rightarrow> bool" where
  "ex_isspace c \<longleftrightarrow>
     c \<in> set [9, 10, 11, 12, 13, 28, 29, 30, 31, 32, 133, 160, 5760, 8192, 8193, 8194,
              8195, 8196, 8197, 8198, 8199, 8200, 8201, 8202, 8232, 8233, 8239, 8287,
              12288]"

definition ex_lower :: "ustr \<Rightarrow> ustr" where
  "ex_lower s = map (\<lambda>c. if 65 \<le> c \<and> c \<le> 90 then c + 32 else c) s"

definition ex_upper :: "ustr \<Rightarrow> ustr" where
  "ex_upper s = map (\<lambda>c. if 97 \<le> c \<and> c \<le> 122 then c - 32 else c) s"

definition ex_isdecimal :: "nat \<Rightarrow> bool" where
  "ex_isdecimal c \<longleftrightarrow> 48 \<le> c \<and> c \<le> 57"

definition ex_isalnum :: "nat \<Rightarrow> bool" where
  "ex_isalnum c \<longleftrightarrow>
     (48 \<le> c \<and> c \<le> 57) \<or> (65 \<le> c \<and> c \<le> 90) \<or> (97 \<le> c \<and> c \<le> 122)
     \<or> (44032 \<le> c \<and> c \<le> 55203)"

fun digits_value :: "ustr \<Rightarrow> nat \<Rightarrow> nat option" where
  "digits_value [] acc = Some acc"
| "digits_value (c # cs) acc =
     (if ex_isdecimal c then digits_value cs (10 * acc + (c - 48)) else None)"

definition ex_to_numeric :: "ustr \<Rightarrow> rat option" where
  "ex_to_numeric s =
     (let ip = takeWhile (\<lambda>c. c \<noteq> 46) s; fp = drop (length ip + 1) s
      in if ip = [] then None
         else case digits_value ip 0 of
                None \<Rightarrow> None
              | Some i \<Rightarrow>
                  if length ip = length s then Some (of_nat i)
                  else if fp = [] then None
                  else case digits_value fp 0 of
                         None \<Rightarrow> None
                       | Some f \<Rightarrow> Some (of_nat i + of_nat f / 10 ^ length fp))"

definition ex_contains :: "ustr \<Rightarrow> ustr \<Rightarrow> bool" where
  "ex_contains pat s = occurs_in (ex_lower pat) (ex_lower s)"

definition ex_lib :: pylib where
  "ex_lib = \<lparr>py_isspace = ex_isspace, py_lower = ex_lower, py_upper = ex_upper,
             py_isalnum = ex_isalnum,
             py_isdecimal = ex_isdecimal, pd_to_numeric = ex_to_numeric,
             pd_contains = ex_contains\<rparr>"

subsection \<open>Example survey for the aggregators\<close>

text \<open>A table with the item columns \<open>Q1\<close> (answers 1, 1, 6), \<open>Q2\<close> (answers 5, 5, 5)
  and \<open>Q3\<close> (answers 1, 2, 2), and a reference index with four items of the category
  \<open>Input\<close>: \<open>Q1\<close> with no sub-category, \<open>Q2\<close> with sub-category \<open>S\<close>, \<open>Q9\<close>, which
  the table does not have, with sub-category \<open>S\<close>, and \<open>Q3\<close> with sub-category \<open>T\<close>.\<close>

definition ex_survey :: dataframe where
  "ex_survey = \<lparr>columns = [ascii ''Q1'', ascii ''Q2'', ascii ''Q3''],
     rows = [(0, [Some (ascii ''1''), Some (ascii ''5''), Some (ascii ''1'')]),
             (1, [Some (ascii ''1''), Some (ascii ''5''), Some (ascii ''2'')]),
             (2, [Some (ascii ''6''), Some (ascii ''5''), Some (ascii ''2'')])]\<rparr>"

definition ex_item_q1 :: index_entry where
  "ex_item_q1 = \<lparr>header_name = Some (ascii ''Q1''), question_name = Some (ascii ''first''),
     major = Some (ascii ''Input''), minor = None\<rparr>"

definition ex_item_q2 :: index_entry where
  "ex_item_q2 = \<lparr>header_name = Some (ascii ''Q2''), question_name = Some (ascii ''second''),
     major = Some (ascii ''Input''), minor = Some (ascii ''S'')\<rparr>"

definition ex_item_q9 :: index_entry where
  "ex_item_q9 = \<lparr>header_name = Some (ascii ''Q9''), question_name = Some (ascii ''ninth''),
     major = Some (ascii ''Input''), minor = Some (ascii ''S'')\<rparr>"

definition ex_item_q3 :: index_entry where
  "ex_item_q3 = \<lparr>header_name = Some (ascii ''Q3''), question_name = Some (ascii ''third''),
     major = Some (ascii ''Input''), minor = Some (ascii ''T'')\<rparr>"

definition ex_index :: "index_entry list" where
  "ex_index = [ex_item_q1, ex_item_q2, ex_item_q9, ex_item_q3]"

section \<open>Free-text answers\<close>

subsection \<open>The regular expressions of \<open>mask_sensitive_content\<close>\<close>

text \<open>
  The three patterns of \<open>mask_sensitive_content\<close> are sequences of two kinds of atoms:
  the word boundary \<open>\b\<close>, and a character class repeated greedily between a least
  and an optional greatest number of times (\<open>c\<close> is \<open>{1,1}\<close>, \<open>c?\<close> is \<open>{0,1}\<close>, \<open>c+\<close>
  is \<open>{1,}\<close>). A character class is a union of single code points, ranges, and the
  classes \<open>\d\<close>, \<open>\w\<close> and \<open>\s\<close>.
\<close>

datatype cls = Lit nat | Range nat nat | Digit | Word | Space

datatype atom = Boundary | Rep "cls list" nat "nat option"

fun cls_match :: "pylib \<Rightarrow> cls \<Rightarrow> nat \<Rightarrow> bool" where
  "cls_match L (Lit a) c = (c = a)"
| "cls_match L (Range a b) c = (a \<le> c \<and> c \<le> b)"
| "cls_match L Digit c = py_isdecimal L c"
| "cls_match L Word c = (py_isalnum L c \<or> c = 95)"
| "cls_match L Space c = py_isspace L c"

definition in_class :: "pylib \<Rightarrow> cls list \<Rightarrow> nat \<Rightarrow> bool" where
  "in_class L cs c = list_ex (\<lambda>k. cls_match L k c) cs"

text \<open>\<open>\b\<close> holds between the previous character \<open>p\<close> (none at the start of the text)
  and the rest \<open>s\<close> of the text when exactly one of the two neighbours is a word
  character.\<close>

definition is_word :: "pylib \<Rightarrow> nat option \<Rightarrow> bool" where
  "is_word L p = (case p of None \<Rightarrow> False | Some c \<Rightarrow> cls_match L Word c)"

definition boundary :: "pylib \<Rightarrow> nat option \<Rightarrow> ustr \<Rightarrow> bool" where
  "boundary L p s = (is_word L p \<noteq> is_word L (case s of [] \<Rightarrow> None | c # _ \<Rightarrow> Some c))"

text \<open>The ways a repetition can consume a prefix of \<open>s\<close>, shortest first: the number
  \<open>k\<close> of characters consumed, the last character before the rest, and the rest.\<close>

fun rep_cands :: "pylib \<Rightarrow> cls list \<Rightarrow> nat option \<Rightarrow> nat \<Rightarrow> nat option \<Rightarrow> ustr
    \<Rightarrow> (nat \<times> nat option \<times> ustr) list" where
  "rep_cands L cs mx k p [] = [(k, p, [])]"
| "rep_cands L cs mx k p (c # s) =
     (k, p, c # s) #
     (if (case mx of None \<Rightarrow> True | Some n \<Rightarrow> k < n) \<and> in_class L cs c
      then rep_cands L cs mx (Suc k) (Some c) s else [])"

text \<open>
  \<open>ends L pat p s\<close> lists the lengths of the matches of \<open>pat\<close> at the start of \<open>s\<close> in
  the order in which a backtracking matcher finds them: a greedy repetition tries its
  longest prefix first and gives characters back one at a time. \<open>re_match\<close> is the
  match the matcher reports, the first of them.
\<close>

fun ends :: "pylib \<Rightarrow> atom list \<Rightarrow> nat option \<Rightarrow> ustr \<Rightarrow> nat list" where
  "ends L [] p s = [0]"
| "ends L (Boundary # pat) p s = (if boundary L p s then ends L pat p s else [])"
| "ends L (Rep cs mn mx # pat) p s =
     concat (map (\<lambda>(k, p', s'). map (\<lambda>r. k + r) (ends L pat p' s'))
               (filter (\<lambda>(k, p', s'). mn \<le> k) (rev (rep_cands L cs mx 0 p s))))"

definition re_match :: "pylib \<Rightarrow> atom list \<Rightarrow> nat option \<Rightarrow> ustr \<Rightarrow> nat option" where
  "re_match L pat p s = (case ends L pat p s of [] \<Rightarrow> None | r # _ \<Rightarrow> Some r)"

text \<open>
  \<open>re.sub(pat, repl, text)\<close> for a pattern that matches no empty text (none of the
  three does) and a replacement without group references: scanning from the left,
  each leftmost match is replaced and the scan resumes after it.
\<close>

function sub_from :: "pylib \<Rightarrow> atom list \<Rightarrow> ustr \<Rightarrow> nat option \<Rightarrow> ustr \<Rightarrow> ustr" where
  "sub_from L pat repl p [] = []"
| "sub_from L pat repl p (c # s) =
     (case re_match L pat p (c # s) of
        None \<Rightarrow> c # sub_from L pat repl (Some c) s
      | Some r \<Rightarrow>
          if 0 < r then repl @ sub_from L pat repl (Some (last (take r (c # s)))) (drop r (c # s))
          else c # sub_from L pat repl (Some c) s)"
  by pat_completeness auto
termination
  by (relation "measure (\<lambda>(L, pat, repl, p, s). length s)") auto

definition re_sub :: "pylib \<Rightarrow> atom list \<Rightarrow> ustr \<Rightarrow> ustr \<Rightarrow> ustr" where
  "re_sub L pat repl text = sub_from L pat repl None text"

text \<open>
  \<^verbatim>\<open>
  def mask_sensitive_content(text):
      text = re.sub(r'\b[A-Za-z0-9._%+-]+@[A-Za-z0-9.-]+\.[A-Z|a-z]{2,}\b', EMAIL, text)
      text = re.sub(r'\b\d{2,3}[-\s]?\d{3,4}[-\s]?\d{4}\b', PHONE, text)
      text = re.sub(r'\b\w+T\b', TEAM, text)
      return text
  \<close>
  where \<open>T\<close> is the Hangul syllable U+D300 (team) and the three replacements are
  bracketed Korean words.
\<close>

definition EMAIL_RE :: "atom list" where
  "EMAIL_RE =
     [Boundary,
      Rep [Range 65 90, Range 97 122, Range 48 57, Lit 46, Lit 95, Lit 37, Lit 43, Lit 45] 1 None,
      Rep [Lit 64] 1 (Some 1),
      Rep [Range 65 90, Range 97 122, Range 48 57, Lit 46, Lit 45] 1 None,
      Rep [Lit 46] 1 (Some 1),
      Rep [Range 65 90, Lit 124, Range 97 122] 2 None,
      Boundary]"

definition PHONE_RE :: "atom list" where
  "PHONE_RE =
     [Boundary, Rep [Digit] 2 (Some 3), Rep [Lit 45, Space] 0 (Some 1),
      Rep [Digit] 3 (Some 4), Rep [Lit 45, Space] 0 (Some 1),
      Rep [Digit] 4 (Some 4), Boundary]"

definition TEAM_RE :: "atom list" where
  "TEAM_RE = [Boundary, Rep [Word] 1 None, Rep [Lit 54016] 1 (Some 1), Boundary]"

definition EMAIL_MASK :: ustr where
  "EMAIL_MASK = [91, 51060, 47700, 51068, 93]"

definition PHONE_MASK :: ustr where
  "PHONE_MASK = [91, 51204, 54868, 48264, 54840, 93]"

definition TEAM_MASK :: ustr where
  "TEAM_MASK = [91, 54016, 47749, 93]"

definition mask_sensitive_content :: "pylib \<Rightarrow> ustr \<Rightarrow> ustr" where
  "mask_sensitive_content L text =
     re_sub L TEAM_RE TEAM_MASK (re_sub L PHONE_RE PHONE_MASK (re_sub L EMAIL_RE EMAIL_MASK text))"

subsection \<open>\<open>preprocess_answer_list\<close>\<close>

text \<open>\<open>' '.join(s.lower().split())\<close>, the form under which answers are compared.\<close>

definition normalized_form :: "pylib \<Rightarrow> ustr \<Rightarrow> ustr" where
  "normalized_form L s = join_space (split_ws L (py_lower L s))"

text \<open>
  \<^verbatim>\<open>
  for answer in raw_answers:
      if not answer or not isinstance(answer, str):
          continue
      cleaned = answer.strip()
      if len(cleaned) < 10:
          continue
      normalized = ' '.join(cleaned.lower().split())
      if normalized in seen_answers or normalized in global_used_sentences:
          continue
      seen_answers.add(normalized)
      cleaned = mask_sensitive_content(cleaned)
      cleaned_answers.append(cleaned)
  \<close>
  The answers are strings (the caller passes \<open>astype(str).tolist()\<close>).
\<close>

fun clean_loop :: "pylib \<Rightarrow> ustr set \<Rightarrow> ustr list \<Rightarrow> ustr list \<times> ustr set
    \<Rightarrow> ustr list \<times> ustr set" where
  "clean_loop L global_used_sentences [] st = st"
| "clean_loop L global_used_sentences (answer # raw_answers) (cleaned_answers, seen_answers) =
     (if answer = [] then
        clean_loop L global_used_sentences raw_answers (cleaned_answers, seen_answers)
      else
        (let cleaned = strip L answer
         in if length cleaned < 10 then
              clean_loop L global_used_sentences raw_answers (cleaned_answers, seen_answers)
            else
              (let normalized = normalized_form L cleaned
               in if normalized \<in> seen_answers \<or> normalized \<in> global_used_sentences then
                    clean_loop L global_used_sentences raw_answers
                      (cleaned_answers, seen_answers)
                  else
                    clean_loop L global_used_sentences raw_answers
                      (cleaned_answers @ [mask_sensitive_content L cleaned],
                       insert normalized seen_answers))))"

text \<open>
  \<^verbatim>\<open>
  def preprocess_answer_list(raw_answers, global_used_sentences=None):
      if not raw_answers:
          return []
      if global_used_sentences is None:
          global_used_sentences = set()
      <cleaning loop>
      if len(cleaned_answers) > 20:
          cleaned_answers = sorted(cleaned_answers, key=len, reverse=True)[:20]
      for answer in cleaned_answers[:3]:
          normalized = ' '.join(answer.lower().split())
          global_used_sentences.add(normalized)
      return cleaned_answers
  \<close>
  The function returns the list and updates the caller's set in place; the model
  returns both. \<open>sorted\<close> is stable, also with \<open>reverse=True\<close>.
\<close>

definition preprocess_answer_list :: "pylib \<Rightarrow> ustr list \<Rightarrow> ustr set \<Rightarrow> ustr list \<times> ustr set" where
  "preprocess_answer_list L raw_answers global_used_sentences =
     (if raw_answers = [] then ([], global_used_sentences)
      else
        (let cleaned_answers = fst (clean_loop L global_used_sentences raw_answers ([], {}));
             cleaned_answers =
               (if length cleaned_answers > 20
                then take 20 (sort_key (\<lambda>a. - int (length a)) cleaned_answers)
                else cleaned_answers)
         in (cleaned_answers,
             global_used_sentences \<union> normalized_form L ` set (take 3 cleaned_answers))))"

subsection \<open>Notions used to state the properties of the free-text answers\<close>

text \<open>
  \<open>dedup_by f\<close> keeps the first of the elements with the same value of \<open>f\<close>.
  \<open>eligible\<close> are the trimmed answers of at least 10 characters whose normalized form
  is not in the set \<open>g\<close>, in the order of the answers, and \<open>retained\<close> the eligible
  answers without those that repeat the normalized form of an earlier one. The two
  lists of answers are the examples used below.
\<close>

fun dedup_by :: "('a \<Rightarrow> 'b) \<Rightarrow> 'a list \<Rightarrow> 'a list" where
  "dedup_by f [] = []"
| "dedup_by f (x # xs) = x # dedup_by f (filter (\<lambda>y. f y \<noteq> f x) xs)"

definition ex_culture_answers :: "ustr list" where
  "ex_culture_answers =
     [ascii ''ok'',
      ascii ''this is a sufficiently long response about culture'',
      ascii ''this is a sufficiently long response about culture '']"

definition ex_two_answers :: "ustr list" where
  "ex_two_answers = [ascii ''short answer'', ascii ''a much longer answer'']"

definition eligible :: "pylib \<Rightarrow> ustr set \<Rightarrow> ustr list \<Rightarrow> ustr list" where
  "eligible L g raw_answers =
     filter (\<lambda>c. 10 \<le> length c \<and> normalized_form L c \<notin> g) (map (strip L) raw_answers)"

definition retained :: "pylib \<Rightarrow> ustr set \<Rightarrow> ustr list \<Rightarrow> ustr list" where
  "retained L g raw_answers = dedup_by (normalized_form L) (eligible L g raw_answers)"

text \<open>\<open>needs L pat s\<close>: the pattern has an atom that must match at least one character
  and whose class contains no character of \<open>s\<close>.\<close>

fun needs :: "pylib \<Rightarrow> atom list \<Rightarrow> ustr \<Rightarrow> bool" where
  "needs L [] s = False"
| "needs L (Boundary # pat) s = needs L pat s"
| "needs L (Rep cs mn mx # pat) s =
     ((0 < mn \<and> (\<forall>c \<in> set s. \<not> in_class L cs c)) \<or> needs L pat s)"

text \<open>Twenty-one answers, of 10 to 30 letters \<open>a\<close>.\<close>

definition ex_many_answers :: "ustr list" where
  "ex_many_answers = map (\<lambda>n. replicate n 97) [10..<31]"

subsection \<open>\<open>build_structured_open_ended\<close>\<close>

text \<open>
  One entry of \<open>basic_responses\<close>. The entries of the main path have the keys
  \<open>header\<close>, \<open>title\<close>, \<open>category\<close> and \<open>answers\<close>; those of the fallback path only
  \<open>title\<close> and \<open>answers\<close> (an absent key is \<open>None\<close>).
\<close>

record answer_block =
  ab_header :: "ustr option"
  ab_title :: cell
  ab_category :: "cell option"
  ab_answers :: "ustr list"

text \<open>
  What the function takes from outside its arguments. \<open>env\<close> is what can differ
  between two runs on the same input: the calendar date \<open>today\<close>
  (\<open>datetime.now().strftime("%Y.%m.%d")\<close>, read by \<open>build_report\<close>) and the reply of
  the generative-language-model service to
  \<open>generate_subjective_comprehensive_analysis(result, org_name)\<close>, \<open>None\<close> when the
  call raises. \<open>site\<close> is what belongs to the installation: the reference index that
  \<open>pd.read_excel\<close> loads from the fixed path (\<open>None\<close> when loading it or reading its
  columns raises), and the keyword-based \<open>generate_advanced_subjective_analysis\<close>,
  which is not modelled and whose result is of some type \<open>'a\<close> (\<open>None\<close> when it raises).
\<close>

record env =
  today :: ustr
  comprehensive_reply :: "answer_block list \<Rightarrow> cell \<Rightarrow> ustr option"

record 'a site =
  reference_index :: "index_entry list option"
  advanced_analysis :: "answer_block list \<Rightarrow> dataframe \<Rightarrow> 'a option"

record 'a open_ended =
  basic_responses :: "answer_block list"
  advanced_result :: "'a option"
  comprehensive_analysis :: "ustr option"

text \<open>The category name of the free-text items (U+C8FC U+AD00 U+C2DD), the column
  of the organization name (U+C870 U+C9C1 U+BA85), and the four columns of the
  fallback path.\<close>

definition SUBJECTIVE :: ustr where
  "SUBJECTIVE = [51452, 44288, 49885]"

definition ORG_COLUMN :: ustr where
  "ORG_COLUMN = [51312, 51649, 47749]"

definition FALLBACK_COLUMNS :: "ustr list" where
  "FALLBACK_COLUMNS = [ascii ''NO40'', ascii ''NO41'', ascii ''NO42'', ascii ''NO43'']"

text \<open>
  \<^verbatim>\<open>
  structured_data = []
  global_used_sentences = set()
  for _, item in subjective_items.iterrows():
      header_name = item[HEADER]
      question_name = item[QUESTION]
      minor_category = item[MINOR]
      if header_name in df.columns:
          raw_answers = df[header_name].dropna().astype(str).tolist()
          if raw_answers:
              processed_answers = preprocess_answer_list(raw_answers, global_used_sentences)
              structured_data.append({"header": header_name, "title": question_name,
                  "category": minor_category, "answers": processed_answers})
  \<close>
  The set \<open>global_used_sentences\<close> is shared by all the questions of the loop.
\<close>

fun subjective_loop :: "pylib \<Rightarrow> dataframe \<Rightarrow> index_entry list
    \<Rightarrow> answer_block list \<times> ustr set \<Rightarrow> answer_block list \<times> ustr set" where
  "subjective_loop L df [] st = st"
| "subjective_loop L df (item # items) (structured_data, global_used_sentences) =
     (case header_name item of
        None \<Rightarrow> subjective_loop L df items (structured_data, global_used_sentences)
      | Some h \<Rightarrow>
          if h \<in> set (columns df) then
            (let raw_answers = dropna (series df h)
             in if raw_answers \<noteq> [] then
                  (case preprocess_answer_list L raw_answers global_used_sentences of
                     (processed_answers, used) \<Rightarrow>
                       subjective_loop L df items
                         (structured_data @
                            [\<lparr>ab_header = Some h, ab_title = question_name item,
                              ab_category = Some (minor item),
                              ab_answers = processed_answers\<rparr>],
                          used))
                else subjective_loop L df items (structured_data, global_used_sentences))
          else subjective_loop L df items (structured_data, global_used_sentences))"

text \<open>The loop of the fallback path over the columns \<open>NO40\<close> to \<open>NO43\<close>.\<close>

fun fallback_loop :: "pylib \<Rightarrow> dataframe \<Rightarrow> ustr list
    \<Rightarrow> answer_block list \<times> ustr set \<Rightarrow> answer_block list \<times> ustr set" where
  "fallback_loop L df [] st = st"
| "fallback_loop L df (col # cols) (open_ended, global_used_sentences) =
     (if col \<in> set (columns df) then
        (let raw_answers = dropna (series df col)
         in if raw_answers \<noteq> [] then
              (case preprocess_answer_list L raw_answers global_used_sentences of
                 (processed_answers, used) \<Rightarrow>
                   fallback_loop L df cols
                     (open_ended @
                        [\<lparr>ab_header = None, ab_title = Some col, ab_category = None,
                          ab_answers = processed_answers\<rparr>],
                      used))
            else fallback_loop L df cols (open_ended, global_used_sentences))
      else fallback_loop L df cols (open_ended, global_used_sentences))"

text \<open>
  \<^verbatim>\<open>
  if structured_data:
      try:
          org_name = df.get(ORG, pd.Series([None])).iloc[0] if ORG in df.columns else None
          result["comprehensive_analysis"] =
              generate_subjective_comprehensive_analysis(result, org_name)
      except Exception as e:
          result["comprehensive_analysis"] = None
  \<close>
\<close>

definition comprehensive :: "env \<Rightarrow> dataframe \<Rightarrow> answer_block list \<Rightarrow> ustr option" where
  "comprehensive E df structured_data =
     (if structured_data \<noteq> [] then
        (if ORG_COLUMN \<in> set (columns df) then
           (case series df ORG_COLUMN of
              [] \<Rightarrow> None
            | org_name # _ \<Rightarrow> comprehensive_reply E structured_data org_name)
         else comprehensive_reply E structured_data None)
      else None)"

text \<open>
  \<^verbatim>\<open>
  def build_structured_open_ended(df, is_company_level=False):
      try:
          ref_df = pd.read_excel(<reference index>)
          subjective_items = ref_df[ref_df[MAJOR] == SUBJECTIVE].copy()
          <loop over the subjective items>
          result = {"basic_responses": structured_data, "advanced_analysis": None,
                    "comprehensive_analysis": None}
          <comprehensive analysis>
          if is_company_level and structured_data:
              result["advanced_analysis"] =
                  generate_advanced_subjective_analysis(structured_data, df)
          return result
      except Exception as e:
          st.error(...)
          open_ended = []
          global_used_sentences = set()
          <loop over the fallback columns>
          result = {"basic_responses": open_ended, "advanced_analysis": None,
                    "comprehensive_analysis": None}
          <comprehensive analysis>
          return result
  \<close>
\<close>

definition open_ended_fallback :: "env \<Rightarrow> pylib \<Rightarrow> dataframe \<Rightarrow> 'a open_ended" where
  "open_ended_fallback E L df =
     (let open_ended = fst (fallback_loop L df FALLBACK_COLUMNS ([], {}))
      in \<lparr>basic_responses = open_ended, advanced_result = None,
          comprehensive_analysis = comprehensive E df open_ended\<rparr>)"

definition build_structured_open_ended ::
  "env \<Rightarrow> 'a site \<Rightarrow> pylib \<Rightarrow> dataframe \<Rightarrow> bool \<Rightarrow> 'a open_ended" where
  "build_structured_open_ended E S L df is_company_level =
     (case reference_index S of
        None \<Rightarrow> open_ended_fallback E L df
      | Some ref_df \<Rightarrow>
          (let subjective_items = filter (\<lambda>item. major item = Some SUBJECTIVE) ref_df;
               structured_data = fst (subjective_loop L df subjective_items ([], {}))
           in if is_company_level \<and> structured_data \<noteq> [] then
                (case advanced_analysis S structured_data df of
                   None \<Rightarrow> open_ended_fallback E L df
                 | Some adv \<Rightarrow>
                     \<lparr>basic_responses = structured_data, advanced_result = Some adv,
                      comprehensive_analysis = comprehensive E df structured_data\<rparr>)
              else
                \<lparr>basic_responses = structured_data, advanced_result = None,
                 comprehensive_analysis = comprehensive E df structured_data\<rparr>))"

subsection \<open>Notions used to state the properties of the free-text loop\<close>

text \<open>A table with two free-text columns, and the two free-text items of a reference
  index that name them.\<close>

definition ex_open_df :: dataframe where
  "ex_open_df = \<lparr>columns = [ascii ''NO40'', ascii ''NO41''],
     rows = [(0, [Some (ascii ''Great teamwork here''), Some (ascii ''great  TEAMWORK here'')]),
             (1, [None, Some (ascii ''Need more training'')])]\<rparr>"

definition ex_open_items :: "index_entry list" where
  "ex_open_items =
     [\<lparr>header_name = Some (ascii ''NO40''), question_name = Some (ascii ''strengths''),
       major = Some SUBJECTIVE, minor = None\<rparr>,
      \<lparr>header_name = Some (ascii ''NO41''), question_name = Some (ascii ''needs''),
       major = Some SUBJECTIVE, minor = None\<rparr>]"

text \<open>The set of the sentences used by a list of blocks, and what holds of a block
  produced when the shared set was \<open>g\<close>.\<close>

definition used_by :: "pylib \<Rightarrow> answer_block list \<Rightarrow> ustr set" where
  "used_by L blocks = (\<Union>b \<in> set blocks. normalized_form L ` set (take 3 (ab_answers b)))"

definition block_ok :: "pylib \<Rightarrow> dataframe \<Rightarrow> ustr set \<Rightarrow> answer_block \<Rightarrow> bool" where
  "block_ok L df g b =
     (\<exists>h. ab_header b = Some h \<and>
        (\<forall>x \<in> set (ab_answers b). \<exists>a \<in> set (dropna (series df h)).
            x = mask_sensitive_content L (strip L a) \<and> normalized_form L (strip L a) \<notin> g))"

section \<open>Report Assembler (\<open>build_report\<close>)\<close>

text \<open>
  \<^verbatim>\<open>
  org_name = DEFAULT_ORG
  for cand in ORG_CANDIDATES:
      if cand in df.columns and not df[cand].dropna().empty:
          org_name = str(df[cand].dropna().iloc[0]).strip()
          break
  \<close>
  and the same for \<open>dept_name\<close>, which starts as \<open>None\<close>. The candidates are the column
  names of the source, three of them Korean.
\<close>

fun first_value :: "pylib \<Rightarrow> dataframe \<Rightarrow> ustr list \<Rightarrow> ustr option" where
  "first_value L df [] = None"
| "first_value L df (cand # cands) =
     (if cand \<in> set (columns df) then
        (case dropna (series df cand) of
           [] \<Rightarrow> first_value L df cands
         | v # _ \<Rightarrow> Some (strip L v))
      else first_value L df cands)"

definition DEFAULT_ORG :: ustr where
  "DEFAULT_ORG = [50629, 47196, 46300, 32, 45936, 51060, 53552]"

definition ORG_CANDIDATES :: "ustr list" where
  "ORG_CANDIDATES =
     [[51312, 51649, 47749], [54924, 49324, 47749], ascii ''Org'', ascii ''Organization'']"

definition DEPT_CANDIDATES :: "ustr list" where
  "DEPT_CANDIDATES = [[48512, 49436, 47749], [54016, 47749], ascii ''Department'']"

text \<open>
  \<^verbatim>\<open>
  def is_objective_column(df_, col):
      if col not in df_.columns:
          return False
      s = to_num(df_[col]).dropna()
      if s.empty:
          return False
      within = s[(s >= 1) & (s <= 5)]
      return (len(within) / len(s)) >= 0.8
  \<close>
\<close>

definition is_objective_column :: "pylib \<Rightarrow> dataframe \<Rightarrow> ustr \<Rightarrow> bool" where
  "is_objective_column L df col =
     (if col \<notin> set (columns df) then False
      else
        (let s = dropna_num (to_num L (series df col))
         in if s = [] then False
            else
              (let within_range = filter (\<lambda>x. 1 \<le> x \<and> x \<le> 5) s
               in (of_nat (length within_range) / of_nat (length s) :: rat) \<ge> 0.8)))"

text \<open>
  The loop that collects the chart of item scores:
  \<^verbatim>\<open>
  for _, row in idx.iterrows():
      col_name = str(row.get(HEADER, "")).strip()
      label = str(row.get(QUESTION, col_name)).strip()
      if not label or not col_name or col_name not in df.columns:
          continue
      if not is_objective_column(df, col_name):
          continue
      num = to_num(df[col_name]).dropna()
      if num.empty:
          continue
      avg = float(num.mean())
      bm = max(0.0, min(5.0, avg - 0.25))
      current_index = len(line_labels)
      line_labels.append(label)
      our_scores.append(round(avg, 2))
      benchmark_scores.append(round(bm, 2))
      big_area = str(row.get(MAJOR_CLEAN, "")).strip().lower()
      if "input" in big_area:
          area_index_map["Input"].append(current_index)
      elif "process" in big_area:
          area_index_map["Process"].append(current_index)
      elif "output" in big_area:
          area_index_map["Output"].append(current_index)
  \<close>
\<close>

record chart =
  line_labels :: "ustr list"
  our_scores :: "rat list"
  benchmark_scores :: "rat list"
  area_input :: "nat list"
  area_process :: "nat list"
  area_output :: "nat list"

fun chart_loop :: "pylib \<Rightarrow> dataframe \<Rightarrow> index_entry list \<Rightarrow> chart \<Rightarrow> chart" where
  "chart_loop L df [] ch = ch"
| "chart_loop L df (row # idx) ch =
     (let col_name = strip L (str_of_cell (header_name row));
          label = strip L (str_of_cell (question_name row))
      in if label = [] \<or> col_name = [] \<or> col_name \<notin> set (columns df) then chart_loop L df idx ch
         else if \<not> is_objective_column L df col_name then chart_loop L df idx ch
         else
           (let num = dropna_num (to_num L (series df col_name))
            in if num = [] then chart_loop L df idx ch
               else
                 (let avg = mean num;
                      bm = max 0 (min 5 (avg - 0.25));
                      current_index = length (line_labels ch);
                      big_area = py_lower L (strip L (major_clean L row));
                      ch = ch\<lparr>line_labels := line_labels ch @ [label],
                               our_scores := our_scores ch @ [py_round avg 2],
                               benchmark_scores := benchmark_scores ch @ [py_round bm 2]\<rparr>
                  in chart_loop L df idx
                       (if occurs_in (ascii ''input'') big_area
                        then ch\<lparr>area_input := area_input ch @ [current_index]\<rparr>
                        else if occurs_in (ascii ''process'') big_area
                        then ch\<lparr>area_process := area_process ch @ [current_index]\<rparr>
                        else if occurs_in (ascii ''output'') big_area
                        then ch\<lparr>area_output := area_output ch @ [current_index]\<rparr>
                        else ch))))"

text \<open>The segments of the chart: for each area with at least one item, its name and
  the least and greatest positions of its items.\<close>

definition segment :: "ustr \<Rightarrow> nat list \<Rightarrow> (ustr \<times> nat \<times> nat) list" where
  "segment area_name idx_list =
     (case idx_list of
        [] \<Rightarrow> []
      | i # rest \<Rightarrow> [(area_name, fold min rest i, fold max rest i)])"

definition segments :: "chart \<Rightarrow> (ustr \<times> nat \<times> nat) list" where
  "segments ch =
     segment (ascii ''Input'') (area_input ch) @ segment (ascii ''Process'') (area_process ch)
     @ segment (ascii ''Output'') (area_output ch)"

text \<open>
  \<^verbatim>\<open>
  team_columns = [col for col in df.columns
                  if any(keyword in col.upper() for keyword in TEAM_KEYWORDS)]
  has_multiple_teams = len(team_columns) > 0
      and len(df[team_columns[0]].dropna().unique()) > 1 if team_columns else False
  is_company_level = has_multiple_teams or len(df) >= 10
  \<close>
  The keywords are \<open>POS\<close>, \<open>DEPT\<close>, \<open>TEAM\<close> and two Korean words.
\<close>

definition TEAM_KEYWORDS :: "ustr list" where
  "TEAM_KEYWORDS = [ascii ''POS'', ascii ''DEPT'', ascii ''TEAM'', [48512, 49436], [54016]]"

definition is_company_level :: "pylib \<Rightarrow> dataframe \<Rightarrow> bool" where
  "is_company_level L df =
     (let team_columns =
            filter (\<lambda>col. list_ex (\<lambda>keyword. occurs_in keyword (py_upper L col)) TEAM_KEYWORDS)
              (columns df);
          has_multiple_teams =
            (case team_columns of
               [] \<Rightarrow> False
             | col # _ \<Rightarrow> length (unique (dropna (series df col))) > 1)
      in has_multiple_teams \<or> len_df df \<ge> 10)"

text \<open>
  The dictionary \<open>build_report\<close> returns, without its constant texts (the
  introduction, the improvement priorities, the overview and the appendix) and without
  the entries that repeat another (\<open>organization_name\<close> is \<open>org_name\<close>,
  \<open>summary.respondents\<close> is \<open>respondents\<close>). A card of \<open>ipo_cards\<close> is its title,
  score and grade. \<open>report_date\<close> is \<open>datetime.now().strftime("%Y.%m.%d")\<close>.
\<close>

record 'a report =
  org_name :: ustr
  dept_name :: "ustr option"
  report_date :: ustr
  respondents :: nat
  summary_ipo :: "rat option \<times> rat option \<times> rat option"
  ipo_cards :: "(ustr \<times> rat option \<times> ustr) list"
  score_distribution :: chart
  chart_segments :: "(ustr \<times> nat \<times> nat) list"
  diagnostic_categories :: "category_score list"
  open_ended :: "'a open_ended"

definition build_report ::
  "env \<Rightarrow> 'a site \<Rightarrow> pylib \<Rightarrow> dataframe \<Rightarrow> index_entry list \<Rightarrow> 'a report" where
  "build_report E S L df index_df =
     (let input_avg = ipo_avgs L df index_df (ascii ''Input'');
          process_avg = ipo_avgs L df index_df (ascii ''Process'');
          output_avg = ipo_avgs L df index_df (ascii ''Output'');
          ch = chart_loop L df index_df
                 \<lparr>line_labels = [], our_scores = [], benchmark_scores = [],
                  area_input = [], area_process = [], area_output = []\<rparr>
      in \<lparr>org_name = (case first_value L df ORG_CANDIDATES of None \<Rightarrow> DEFAULT_ORG | Some v \<Rightarrow> v),
          dept_name = first_value L df DEPT_CANDIDATES,
          report_date = today E,
          respondents = len_df df,
          summary_ipo = (map_option (\<lambda>a. py_round a 2) input_avg,
                         map_option (\<lambda>a. py_round a 2) process_avg,
                         map_option (\<lambda>a. py_round a 2) output_avg),
          ipo_cards = [(ascii ''Input'', input_avg, grade input_avg),
                       (ascii ''Process'', process_avg, grade process_avg),
                       (ascii ''Output'', output_avg, grade output_avg)],
          score_distribution = ch,
          chart_segments = segments ch,
          diagnostic_categories = categories L df index_df,
          open_ended = build_structured_open_ended E S L df (is_company_level L df)\<rparr>)"

text \<open>A report without the two entries that depend on the day and on the replies of
  the language-model service.\<close>

definition without_date_and_reply :: "'a report \<Rightarrow> 'a report" where
  "without_date_and_reply r =
     r\<lparr>report_date := [], open_ended := (open_ended r)\<lparr>comprehensive_analysis := None\<rparr>\<rparr>"

text \<open>Two runs on consecutive days, with a service that does not reply, at a site
  without a reference index.\<close>

definition ex_env_day1 :: env where
  "ex_env_day1 = \<lparr>today = ascii ''2026.11.04'', comprehensive_reply = (\<lambda>blocks org. None)\<rparr>"

definition ex_env_day2 :: env where
  "ex_env_day2 = \<lparr>today = ascii ''2026.11.05'', comprehensive_reply = (\<lambda>blocks org. None)\<rparr>"

definition ex_site :: "unit site" where
  "ex_site = \<lparr>reference_index = None, advanced_analysis = (\<lambda>blocks df. None)\<rparr>"

section \<open>Grades\<close>

text \<open>
  C1. For every category average \<open>a\<close>: a null average is graded \<open>"N/A"\<close>; an average
  of at least 3.8 is graded excellent; one in \<open>[3.4, 3.8)\<close> good; one in
  \<open>[3.0, 3.4)\<close> fair; and one below 3.0 needs improvement.
\<close>

theorem grade_thresholds:
  "grade None = GRADE_NA
   \<and> (a \<ge> 3.8 \<longrightarrow> grade (Some a) = GRADE_EXCELLENT)
   \<and> (3.4 \<le> a \<and> a < 3.8 \<longrightarrow> grade (Some a) = GRADE_GOOD)
   \<and> (3.0 \<le> a \<and> a < 3.4 \<longrightarrow> grade (Some a) = GRADE_FAIR)
   \<and> (a < 3.0 \<longrightarrow> grade (Some a) = GRADE_NEEDS_IMPROVEMENT)"
  by (simp add: grade_def)

theorem grade_thresholds_witness:
  "grade None = GRADE_NA
   \<and> grade (Some 3.8) = GRADE_EXCELLENT \<and> grade (Some 3.79) = GRADE_GOOD
   \<and> grade (Some 3.4) = GRADE_GOOD \<and> grade (Some 3.39) = GRADE_FAIR
   \<and> grade (Some 3) = GRADE_FAIR \<and> grade (Some 2.99) = GRADE_NEEDS_IMPROVEMENT"
  using grade_thresholds [of "3.8"] grade_thresholds [of "3.79"] grade_thresholds [of "3.4"]
    grade_thresholds [of "3.39"] grade_thresholds [of "3"] grade_thresholds [of "2.99"]
  by simp

section \<open>Unit Grouper\<close>

lemmas grouper_defs = group_data_by_unit_def GROUP_TEAM_def GROUP_ALL_def WHOLE_ORG_def
  DEPT_def TEAM_A_def TEAM_B_def TEAM_C_def ascii_def groupby_def group_keys_def series_def
  cell_at_def dropna_def List.map_filter_def team_rows_def len_df_def group_size_def

lemma dict_set_fresh: "k \<notin> fst ` set d \<Longrightarrow> dict_set d k v = d @ [(k, v)]"
  by (induction d) auto

lemma team_loop_append:
  "distinct (map fst gs) \<Longrightarrow> fst ` set gs \<inter> fst ` set acc = {} \<Longrightarrow>
   team_loop gs acc = acc @ filter (\<lambda>g. 3 \<le> len_df (snd g)) gs"
proof (induction gs arbitrary: acc)
  case Nil
  then show ?case by simp
next
  case (Cons g gs)
  obtain k d where g: "g = (k, d)" by (cases g)
  show ?case
  proof (cases "len_df d < 3")
    case True
    with Cons g show ?thesis by auto
  next
    case False
    have fresh: "k \<notin> fst ` set acc" using Cons.prems(2) g by auto
    have "fst ` set gs \<inter> fst ` set (acc @ [(k, d)]) = {}"
      using Cons.prems g by auto
    with Cons False g fresh show ?thesis
      by (simp add: dict_set_fresh)
  qed
qed

lemma set_dropna: "set (dropna cs) = {k. Some k \<in> set cs}"
  by (induction cs) (auto simp: dropna_def List.map_filter_def)

lemma group_keys_set: "set (group_keys df c) = {k. Some k \<in> set (series df c)}"
  by (simp add: group_keys_def set_dropna)

lemma group_keys_distinct: "distinct (group_keys df c)"
  by (simp add: group_keys_def)

lemma group_keys_sorted: "sorted (group_keys df c)"
  by (simp add: group_keys_def)

lemma group_keys_eq: "group_keys df c = sorted_list_of_set {k. Some k \<in> set (series df c)}"
  by (metis group_keys_set group_keys_distinct group_keys_sorted sorted_list_of_set.idem_if_sorted_distinct)

lemma len_team_rows: "len_df (team_rows df c k) = group_size df c k"
  by (simp add: len_df_def team_rows_def group_size_def)

lemma team_loop_groupby:
  "team_loop (groupby df c) [] =
     map (\<lambda>k. (k, team_rows df c k)) (filter (\<lambda>k. 3 \<le> group_size df c k) (group_keys df c))"
proof -
  have "distinct (map fst (groupby df c))"
    by (simp add: groupby_def comp_def group_keys_distinct)
  then have "team_loop (groupby df c) [] = filter (\<lambda>g. 3 \<le> len_df (snd g)) (groupby df c)"
    using team_loop_append [of "groupby df c" "[]"] by simp
  also have "\<dots> = map (\<lambda>k. (k, team_rows df c k)) (filter (\<lambda>k. 3 \<le> group_size df c k) (group_keys df c))"
    by (simp add: groupby_def filter_map comp_def len_team_rows)
  finally show ?thesis .
qed

lemma group_size_pos: "cell_at df c r = Some k \<Longrightarrow> r \<in> set (rows df) \<Longrightarrow> k \<in> set (group_keys df c)"
  by (auto simp: group_keys_set series_def intro!: image_eqI [where x = r])

lemma by_unit_result:
  assumes "c \<noteq> []" "c \<in> set (columns df)"
  shows "group_data_by_unit df GROUP_TEAM (Some c) =
     (let ks = filter (\<lambda>k. 3 \<le> group_size df c k) (group_keys df c)
      in if ks = [] then ([NoValidTeams], [(WHOLE_ORG, df)])
         else ([], map (\<lambda>k. (k, team_rows df c k)) ks))"
  using assms
  by (simp add: group_data_by_unit_def GROUP_TEAM_def GROUP_ALL_def team_loop_groupby Let_def)

lemma rows_team_rows:
  "rows (team_rows df c k) = filter (\<lambda>r. cell_at df c r = Some k) (rows df)"
  by (simp add: team_rows_def)

lemma team_rows_labels_disjoint:
  assumes "distinct (map fst (rows df))" "k' \<noteq> k"
  shows "set (map fst (rows (team_rows df c k))) \<inter> set (map fst (rows (team_rows df c k'))) = {}"
proof (rule ccontr)
  assume "\<not> ?thesis"
  then obtain x where x: "x \<in> set (map fst (rows (team_rows df c k)))"
    "x \<in> set (map fst (rows (team_rows df c k')))" by blast
  from x(1) obtain r where r: "r \<in> set (rows df)" "cell_at df c r = Some k" "fst r = x"
    by (auto simp: rows_team_rows)
  from x(2) obtain r' where r': "r' \<in> set (rows df)" "cell_at df c r' = Some k'" "fst r' = x"
    by (auto simp: rows_team_rows)
  have inj: "inj_on fst (set (rows df))" using assms(1) by (simp add: distinct_map)
  from inj r(1) r'(1) r(3) r'(3) have "r = r'" by (simp add: inj_on_def)
  with r(2) r'(2) assms(2) show False by simp
qed

lemma distinct_concat_team_rows:
  assumes "distinct (map fst (rows df))" "distinct ks"
  shows "distinct (concat (map (\<lambda>k. map fst (rows (team_rows df c k))) ks))"
  using assms(2)
proof (induction ks)
  case Nil
  then show ?case by simp
next
  case (Cons k ks)
  let ?f = "\<lambda>k. map fst (rows (team_rows df c k))"
  have d: "distinct (?f k)"
    using assms(1) by (simp add: rows_team_rows distinct_map_filter)
  have ih: "distinct (concat (map ?f ks))"
    using Cons by simp
  have "set (?f k) \<inter> set (concat (map ?f ks)) = {}"
  proof (rule ccontr)
    assume "set (?f k) \<inter> set (concat (map ?f ks)) \<noteq> {}"
    then obtain x where x: "x \<in> set (?f k)" "x \<in> set (concat (map ?f ks))" by blast
    from x(2) obtain k' where k': "k' \<in> set ks" "x \<in> set (?f k')"
      unfolding set_concat by auto
    from k'(1) Cons.prems have "k' \<noteq> k" by auto
    from team_rows_labels_disjoint [OF assms(1) this, of c] x(1) k'(2) show False by blast
  qed
  with d ih have "distinct (?f k @ concat (map ?f ks))"
    unfolding distinct_append by blast
  then show ?case by simp
qed

lemma retained_rows_union:
  "(\<Union>k \<in> set (filter (\<lambda>k. 3 \<le> group_size df c k) (group_keys df c)). set (rows (team_rows df c k)))
     = retained_rows df c"
proof (rule set_eqI)
  fix r
  show "r \<in> (\<Union>k \<in> set (filter (\<lambda>k. 3 \<le> group_size df c k) (group_keys df c)). set (rows (team_rows df c k)))
     \<longleftrightarrow> r \<in> retained_rows df c"
  proof
    assume "r \<in> (\<Union>k \<in> set (filter (\<lambda>k. 3 \<le> group_size df c k) (group_keys df c)). set (rows (team_rows df c k)))"
    then obtain k where "3 \<le> group_size df c k" "r \<in> set (rows (team_rows df c k))" by auto
    then show "r \<in> retained_rows df c"
      by (auto simp: retained_rows_def rows_team_rows)
  next
    assume "r \<in> retained_rows df c"
    then obtain k where k: "r \<in> set (rows df)" "cell_at df c r = Some k" "3 \<le> group_size df c k"
      by (auto simp: retained_rows_def)
    then have "k \<in> set (group_keys df c)" by (simp add: group_size_pos)
    with k have "k \<in> set (filter (\<lambda>k. 3 \<le> group_size df c k) (group_keys df c))"
      "r \<in> set (rows (team_rows df c k))"
      by (simp_all add: rows_team_rows)
    then show "r \<in> (\<Union>k \<in> set (filter (\<lambda>k. 3 \<le> group_size df c k) (group_keys df c)). set (rows (team_rows df c k)))"
      by blast
  qed
qed

lemma retained_rows_empty:
  "retained_rows df c = {} \<longleftrightarrow> filter (\<lambda>k. 3 \<le> group_size df c k) (group_keys df c) = []"
proof -
  have "retained_rows df c = {} \<longleftrightarrow>
     (\<Union>k \<in> set (filter (\<lambda>k. 3 \<le> group_size df c k) (group_keys df c)). set (rows (team_rows df c k))) = {}"
    by (simp only: retained_rows_union)
  also have "\<dots> \<longleftrightarrow> (\<forall>k \<in> set (filter (\<lambda>k. 3 \<le> group_size df c k) (group_keys df c)). rows (team_rows df c k) = [])"
    by simp
  also have "\<dots> \<longleftrightarrow> filter (\<lambda>k. 3 \<le> group_size df c k) (group_keys df c) = []"
  proof
    assume a: "\<forall>k \<in> set (filter (\<lambda>k. 3 \<le> group_size df c k) (group_keys df c)). rows (team_rows df c k) = []"
    show "filter (\<lambda>k. 3 \<le> group_size df c k) (group_keys df c) = []"
    proof (rule ccontr)
      assume "filter (\<lambda>k. 3 \<le> group_size df c k) (group_keys df c) \<noteq> []"
      then obtain k where k: "k \<in> set (filter (\<lambda>k. 3 \<le> group_size df c k) (group_keys df c))"
        by (meson last_in_set)
      with a have "rows (team_rows df c k) = []" by blast
      then have "group_size df c k = 0" by (simp add: group_size_def rows_team_rows)
      with k show False by simp
    qed
  next
    assume "filter (\<lambda>k. 3 \<le> group_size df c k) (group_keys df c) = []"
    then show "\<forall>k \<in> set (filter (\<lambda>k. 3 \<le> group_size df c k) (group_keys df c)). rows (team_rows df c k) = []"
      by simp
  qed
  finally show ?thesis .
qed

text \<open>
  C4 (as amended). For every table with distinct row labels and every grouping
  configuration, no row appears in two of the returned sub-tables. When the function
  partitions by team (group type \<open>GROUP_TEAM\<close>, a non-empty grouping column that the
  table has) and at least one team has 3 rows or more, the union of the sub-tables is
  exactly the rows whose grouping value is present and shared by at least 3 rows: a
  team of exactly 3 rows is retained, a team of 2 rows is dropped, and a row with a
  missing grouping value belongs to no team. In every other case, in particular when
  every team has fewer than 3 rows, the single whole-organization group holds every
  row of the table.
\<close>

theorem unit_grouper_partition:
  assumes "distinct (map fst (rows df))"
  shows "let out = snd (group_data_by_unit df group_type group_column) in
     distinct (concat (map (\<lambda>g. map fst (rows (snd g))) out))
     \<and> (\<Union>g \<in> set out. set (rows (snd g))) =
         (case group_column of
            None \<Rightarrow> set (rows df)
          | Some c \<Rightarrow>
              if group_type = GROUP_TEAM \<and> c \<noteq> [] \<and> c \<in> set (columns df)
                 \<and> retained_rows df c \<noteq> {}
              then retained_rows df c else set (rows df))"
proof (cases "\<exists>c. group_type = GROUP_TEAM \<and> group_column = Some c \<and> c \<noteq> [] \<and> c \<in> set (columns df)
                 \<and> retained_rows df c \<noteq> {}")
  case True
  then obtain c where c: "group_type = GROUP_TEAM" "group_column = Some c" "c \<noteq> []"
    "c \<in> set (columns df)" "retained_rows df c \<noteq> {}" by blast
  let ?ks = "filter (\<lambda>k. 3 \<le> group_size df c k) (group_keys df c)"
  have ne: "?ks \<noteq> []" using c(5) by (simp add: retained_rows_empty)
  have out: "snd (group_data_by_unit df GROUP_TEAM (Some c)) = map (\<lambda>k. (k, team_rows df c k)) ?ks"
    using c(3,4) ne by (simp add: by_unit_result Let_def)
  have "distinct ?ks" by (simp add: group_keys_distinct)
  then have 1: "distinct (concat (map (\<lambda>k. map fst (rows (team_rows df c k))) ?ks))"
    using assms by (rule distinct_concat_team_rows [rotated])
  have 2: "(\<Union>k \<in> set ?ks. set (rows (team_rows df c k))) = retained_rows df c"
    by (rule retained_rows_union)
  have 3: "(\<Union>g \<in> set (map (\<lambda>k. (k, team_rows df c k)) ?ks). set (rows (snd g))) = retained_rows df c"
    using 2 by simp
  show ?thesis unfolding c(1,2) out Let_def
    using 1 3 c(3,4,5) by (simp add: comp_def)
next
  case False
  have "snd (group_data_by_unit df group_type group_column) = [(WHOLE_ORG, df)]"
  proof (cases "group_type = GROUP_TEAM")
    case gt: True
    show ?thesis
    proof (cases group_column)
      case None
      with gt show ?thesis by (simp add: group_data_by_unit_def)
    next
      case (Some c)
      show ?thesis
      proof (cases "c \<noteq> [] \<and> c \<in> set (columns df)")
        case True
        with False gt Some have "retained_rows df c = {}" by simp
        with True gt Some show ?thesis
          by (simp add: by_unit_result retained_rows_empty Let_def)
      next
        case False
        with gt Some show ?thesis by (auto simp: group_data_by_unit_def)
      qed
    qed
  next
    case False
    then show ?thesis by (simp add: group_data_by_unit_def)
  qed
  then have out: "snd (group_data_by_unit df group_type group_column) = [(WHOLE_ORG, df)]" .
  show ?thesis
  proof (cases group_column)
    case None
    with assms show ?thesis unfolding out Let_def by simp
  next
    case (Some c)
    with False have "\<not> (group_type = GROUP_TEAM \<and> c \<noteq> [] \<and> c \<in> set (columns df)
                 \<and> retained_rows df c \<noteq> {})" by simp
    with Some assms show ?thesis unfolding out Let_def by auto
  qed
qed

text \<open>On \<open>ex_teams\<close>: the teams B and A of 3 rows each are kept, team C of 2 rows and
  the row with no team are left out.\<close>

theorem unit_grouper_partition_witness:
  "distinct (map fst (rows ex_teams))
   \<and> distinct (concat (map (\<lambda>g. map fst (rows (snd g)))
         (snd (group_data_by_unit ex_teams GROUP_TEAM (Some DEPT)))))
   \<and> (\<Union>g \<in> set (snd (group_data_by_unit ex_teams GROUP_TEAM (Some DEPT))). set (rows (snd g)))
       = {(0, [Some TEAM_B]), (1, [Some TEAM_B]), (2, [Some TEAM_B]),
          (3, [Some TEAM_A]), (4, [Some TEAM_A]), (5, [Some TEAM_A])}
   \<and> group_size ex_teams DEPT TEAM_A = 3 \<and> group_size ex_teams DEPT TEAM_C = 2"
proof -
  have d: "distinct (map fst (rows ex_teams))" by (simp add: ex_teams_def)
  have out: "snd (group_data_by_unit ex_teams GROUP_TEAM (Some DEPT)) =
    [(TEAM_A, ex_teams\<lparr>rows := [(3, [Some TEAM_A]), (4, [Some TEAM_A]), (5, [Some TEAM_A])]\<rparr>),
     (TEAM_B, ex_teams\<lparr>rows := [(0, [Some TEAM_B]), (1, [Some TEAM_B]), (2, [Some TEAM_B])]\<rparr>)]"
    by (simp add: ex_teams_def grouper_defs)
  have sz: "group_size ex_teams DEPT TEAM_A = 3" "group_size ex_teams DEPT TEAM_C = 2"
    by (simp_all add: ex_teams_def grouper_defs)
  show ?thesis
    using unit_grouper_partition [OF d, of GROUP_TEAM "Some DEPT"] d sz
    unfolding out Let_def by auto
qed

text \<open>The claim as stated fails on \<open>ex_two_small_teams\<close>: both teams have one row, so
  the claim has every row dropped, but the function returns the whole table as one
  group, which contains row 0 of the one-row team A.\<close>

theorem unit_grouper_partition_counterexample:
  "snd (group_data_by_unit ex_two_small_teams GROUP_TEAM (Some DEPT)) = [(WHOLE_ORG, ex_two_small_teams)]
   \<and> (0, [Some TEAM_A]) \<in> set (rows ex_two_small_teams)
   \<and> cell_at ex_two_small_teams DEPT (0, [Some TEAM_A]) = Some TEAM_A
   \<and> group_size ex_two_small_teams DEPT TEAM_A = 1"
  by (simp add: ex_two_small_teams_def grouper_defs)

lemma distinct_singleton: "distinct xs \<Longrightarrow> set xs = {k} \<Longrightarrow> xs = [k]"
proof (cases xs)
  case Nil
  assume "set xs = {k}"
  with Nil show ?thesis by simp
next
  case (Cons x ys)
  assume d: "distinct xs" and s: "set xs = {k}"
  from s Cons have x: "x = k" by auto
  have "ys = []"
  proof (cases ys)
    case Nil
    then show ?thesis .
  next
    case (Cons y zs)
    with s \<open>xs = x # ys\<close> have "y = k" by auto
    with d x Cons \<open>xs = x # ys\<close> show ?thesis by simp
  qed
  with x Cons show ?thesis by simp
qed

lemma group_keys_single:
  assumes "set (dropna (series df c)) = {k}"
  shows "group_keys df c = [k]"
proof -
  have "set (group_keys df c) = {k}" using assms by (simp add: group_keys_def)
  with group_keys_distinct show ?thesis by (rule distinct_singleton)
qed

text \<open>
  C5 (as amended). When the function partitions by team a table whose grouping column
  holds exactly one distinct value \<open>k\<close>, it returns exactly one group. If at least 3
  rows hold \<open>k\<close>, the group is keyed \<open>k\<close>, contains the rows holding \<open>k\<close>, and no
  message is shown. If fewer than 3 rows hold \<open>k\<close>, the group is the whole-organization
  fallback with every row, and the message \<open>NoValidTeams\<close> is shown.
\<close>

theorem unit_grouper_single_value:
  assumes "c \<noteq> []" "c \<in> set (columns df)" "set (dropna (series df c)) = {k}"
  shows "group_data_by_unit df GROUP_TEAM (Some c) =
     (if 3 \<le> group_size df c k then ([], [(k, team_rows df c k)])
      else ([NoValidTeams], [(WHOLE_ORG, df)]))"
  using assms(1,2) by (simp add: by_unit_result group_keys_single [OF assms(3)])

theorem unit_grouper_single_value_witness:
  "DEPT \<noteq> [] \<and> DEPT \<in> set (columns ex_one_team)
   \<and> set (dropna (series ex_one_team DEPT)) = {TEAM_A}
   \<and> group_data_by_unit ex_one_team GROUP_TEAM (Some DEPT) = ([], [(TEAM_A, ex_one_team)])
   \<and> set (dropna (series (ex_one_team\<lparr>rows := take 2 (rows ex_one_team)\<rparr>) DEPT)) = {TEAM_A}
   \<and> group_data_by_unit (ex_one_team\<lparr>rows := take 2 (rows ex_one_team)\<rparr>) GROUP_TEAM (Some DEPT)
       = ([NoValidTeams], [(WHOLE_ORG, ex_one_team\<lparr>rows := take 2 (rows ex_one_team)\<rparr>)])"
proof -
  have h: "DEPT \<noteq> []" "DEPT \<in> set (columns ex_one_team)"
    "set (dropna (series ex_one_team DEPT)) = {TEAM_A}"
    by (simp_all add: ex_one_team_def grouper_defs)
  have h2: "DEPT \<in> set (columns (ex_one_team\<lparr>rows := take 2 (rows ex_one_team)\<rparr>))"
    "set (dropna (series (ex_one_team\<lparr>rows := take 2 (rows ex_one_team)\<rparr>) DEPT)) = {TEAM_A}"
    by (simp_all add: ex_one_team_def grouper_defs)
  show ?thesis
    using unit_grouper_single_value [OF h] unit_grouper_single_value [OF h(1) h2] h h2
    by (simp add: ex_one_team_def grouper_defs)
qed

text \<open>The claim as stated fails on \<open>ex_one_team\<close>, three rows of team A: the single
  group returned is keyed by the team name, not the whole-organization key, and no
  message is shown.\<close>

theorem unit_grouper_single_value_counterexample:
  "set (dropna (series ex_one_team DEPT)) = {TEAM_A}
   \<and> group_data_by_unit ex_one_team GROUP_TEAM (Some DEPT) = ([], [(TEAM_A, ex_one_team)])
   \<and> TEAM_A \<noteq> WHOLE_ORG"
  by (simp add: ex_one_team_def grouper_defs)

text \<open>
  C6 (as amended). When the function partitions by team and at least one team has 3
  rows or more, the keys of the returned mapping are the retained team names in
  ascending order of the names (strings compared code point by code point), not in
  the order of first appearance; in every other case the mapping has the single
  whole-organization key.
\<close>

theorem unit_grouper_key_order:
  "map fst (snd (group_data_by_unit df group_type group_column)) =
     (case group_column of
        None \<Rightarrow> [WHOLE_ORG]
      | Some c \<Rightarrow>
          if group_type = GROUP_TEAM \<and> c \<noteq> [] \<and> c \<in> set (columns df)
             \<and> (\<exists>k. Some k \<in> set (series df c) \<and> 3 \<le> group_size df c k)
          then filter (\<lambda>k. 3 \<le> group_size df c k)
                 (sorted_list_of_set {k. Some k \<in> set (series df c)})
          else [WHOLE_ORG])"
proof (cases group_column)
  case None
  then show ?thesis by (simp add: group_data_by_unit_def)
next
  case (Some c)
  show ?thesis
  proof (cases "group_type = GROUP_TEAM \<and> c \<noteq> [] \<and> c \<in> set (columns df)")
    case True
    let ?ks = "filter (\<lambda>k. 3 \<le> group_size df c k) (group_keys df c)"
    have e: "(\<exists>k. Some k \<in> set (series df c) \<and> 3 \<le> group_size df c k) \<longleftrightarrow> ?ks \<noteq> []"
      by (simp add: filter_empty_conv group_keys_set)
    show ?thesis
      using True Some e
      by (simp add: by_unit_result Let_def comp_def group_keys_eq [symmetric])
  next
    case False
    with Some show ?thesis by (auto simp: group_data_by_unit_def)
  qed
qed

theorem unit_grouper_key_order_witness:
  "map fst (snd (group_data_by_unit ex_teams GROUP_TEAM (Some DEPT))) = [TEAM_A, TEAM_B]
   \<and> sorted_list_of_set {k. Some k \<in> set (series ex_teams DEPT)} = [TEAM_A, TEAM_B, TEAM_C]
   \<and> map fst (snd (group_data_by_unit ex_two_small_teams GROUP_TEAM (Some DEPT))) = [WHOLE_ORG]"
proof -
  have "{k. Some k \<in> set (series ex_teams DEPT)} = {TEAM_A, TEAM_B, TEAM_C}"
    by (auto simp: ex_teams_def grouper_defs)
  then have s: "sorted_list_of_set {k. Some k \<in> set (series ex_teams DEPT)} = [TEAM_A, TEAM_B, TEAM_C]"
    by (simp add: grouper_defs)
  show ?thesis
    using unit_grouper_key_order [of ex_teams GROUP_TEAM "Some DEPT"]
      unit_grouper_key_order [of ex_two_small_teams GROUP_TEAM "Some DEPT"] s
    by (simp add: ex_teams_def ex_two_small_teams_def grouper_defs)
qed

text \<open>The claim as stated fails on \<open>ex_teams\<close>: team B is seen first in the grouping
  column, but the keys come out as A, B.\<close>

theorem unit_grouper_key_order_counterexample:
  "dropna (series ex_teams DEPT)
     = [TEAM_B, TEAM_B, TEAM_B, TEAM_A, TEAM_A, TEAM_A, TEAM_C, TEAM_C]
   \<and> map fst (snd (group_data_by_unit ex_teams GROUP_TEAM (Some DEPT))) = [TEAM_A, TEAM_B]"
  by (simp add: ex_teams_def grouper_defs)

section \<open>Item Aggregator\<close>

text \<open>Evaluating \<open>round\<close> at concrete fractions.\<close>

lemma floor_rat_numeral: "\<lfloor>numeral a / numeral b :: rat\<rfloor> = numeral a div numeral b"
  using floor_divide_of_int_eq [of "numeral a" "numeral b", where ?'a = rat] by simp

lemmas round_defs = py_round_def round_half_even_def Let_def floor_rat_numeral

lemmas agg_defs = item_valid_def col_name_of_def str_of_cell_def strip_def
  to_num_def to_num_cell_def dropna_num_def List.map_filter_def series_def cell_at_def
  LIKERT_MAP_def
  ex_lib_def ex_isspace_def ex_to_numeric_def ex_isdecimal_def ascii_def
  ex_survey_def ex_item_q1_def ex_item_q2_def ex_item_q9_def ex_item_q3_def

lemma ex_valid_q1: "item_valid ex_lib ex_survey ex_item_q1 = [1, 1, 6]"
  by (simp add: agg_defs)

lemma ex_valid_q2: "item_valid ex_lib ex_survey ex_item_q2 = [5, 5, 5]"
  by (simp add: agg_defs)

lemma ex_valid_q3: "item_valid ex_lib ex_survey ex_item_q3 = [1, 2, 2]"
  by (simp add: agg_defs)

lemma ex_valid_q9: "item_valid ex_lib ex_survey ex_item_q9 = []"
  by (simp add: agg_defs)

lemma round_half_even_error: "\<bar>of_int (round_half_even x) - x\<bar> \<le> 1 / 2"
proof -
  have "of_int \<lfloor>x\<rfloor> \<le> x" "x < of_int \<lfloor>x\<rfloor> + 1" by linarith+
  then show ?thesis
    by (auto simp: round_half_even_def Let_def)
qed

lemma py_round1_error: "\<bar>py_round x 1 - x\<bar> \<le> 1 / 20"
proof -
  have "\<bar>of_int (round_half_even (x * 10)) - x * 10\<bar> \<le> 1 / 2"
    by (rule round_half_even_error)
  then show ?thesis by (simp add: py_round_def field_simps abs_le_iff)
qed

lemma count_values_total:
  assumes "set valid \<subseteq> {1, 2, 3, 4, 5 :: rat}"
  shows "length (filter (\<lambda>x. x = 1) valid) + length (filter (\<lambda>x. x = 2) valid)
       + length (filter (\<lambda>x. x = 3) valid) + length (filter (\<lambda>x. x = 4) valid)
       + length (filter (\<lambda>x. x = 5) valid) = length valid"
  using assms by (induction valid) auto

lemma dist_pct_sum:
  assumes ne: "valid \<noteq> []" and rng: "set valid \<subseteq> {1, 2, 3, 4, 5}"
  shows "\<bar>dist_pct valid 1 + dist_pct valid 2 + dist_pct valid 3 + dist_pct valid 4
          + dist_pct valid 5 - 100\<bar> \<le> 0.2"
proof -
  define total :: rat where "total = of_nat (length valid)"
  define p where "p v = of_nat (length (filter (\<lambda>x. x = v) valid)) / total * 100" for v :: rat
  define r where "r v = round_half_even (p v * 10)" for v
  have tpos: "total > 0" using ne by (simp add: total_def)
  define c where "c v = (of_nat (length (filter (\<lambda>x. x = v) valid)) :: rat)" for v :: rat
  have "of_nat (length (filter (\<lambda>x. x = 1) valid) + length (filter (\<lambda>x. x = 2) valid)
       + length (filter (\<lambda>x. x = 3) valid) + length (filter (\<lambda>x. x = 4) valid)
       + length (filter (\<lambda>x. x = 5) valid)) = total"
    unfolding total_def using count_values_total [OF rng] by simp
  then have csum: "c 1 + c 2 + c 3 + c 4 + c 5 = total"
    by (simp add: c_def)
  have "p 1 + p 2 + p 3 + p 4 + p 5 = (c 1 + c 2 + c 3 + c 4 + c 5) / total * 100"
    unfolding p_def c_def [symmetric] by (simp only: add_divide_distrib distrib_right)
  then have psum: "p 1 + p 2 + p 3 + p 4 + p 5 = 100"
    unfolding csum using tpos by simp
  have d: "dist_pct valid v = of_int (r v) / 10" for v
    using ne by (simp add: dist_pct_def py_round_def r_def p_def total_def Let_def)
  have e: "\<bar>of_int (r v) - p v * 10\<bar> \<le> 1 / 2" for v
    unfolding r_def by (rule round_half_even_error)
  define N where "N = r 1 + r 2 + r 3 + r 4 + r 5 - 1000"
  have "(of_int N :: rat) = (of_int (r 1) - p 1 * 10) + (of_int (r 2) - p 2 * 10)
      + (of_int (r 3) - p 3 * 10) + (of_int (r 4) - p 4 * 10) + (of_int (r 5) - p 5 * 10)"
    using psum by (simp add: N_def algebra_simps)
  then have "\<bar>of_int N :: rat\<bar> \<le> 5 / 2"
    using e [of 1] e [of 2] e [of 3] e [of 4] e [of 5] by linarith
  then have "\<bar>of_int N :: rat\<bar> < of_int 3" by simp
  then have "\<bar>N\<bar> < 3" unfolding of_int_abs [symmetric] of_int_less_iff .
  then have "\<bar>N\<bar> \<le> 2" by simp
  then have "\<bar>of_int N :: rat\<bar> \<le> 2" unfolding of_int_abs [symmetric] by (metis of_int_le_iff of_int_numeral)
  then have b: "\<bar>of_int N / 10 :: rat\<bar> \<le> 2 / 10" by simp
  have eq: "dist_pct valid 1 + dist_pct valid 2 + dist_pct valid 3 + dist_pct valid 4
          + dist_pct valid 5 - 100 = of_int N / 10"
    unfolding d N_def by simp
  show ?thesis unfolding eq by (rule b)
qed

text \<open>
  C2 (as amended). For every item whose column has at least one valid response, the
  benchmark is \<open>clamp(mean - 0.25, 0, 5)\<close> rounded to 2 decimals, where \<open>mean\<close> is the
  unrounded mean of the valid responses, and each distribution percentage for \<open>v\<close> in
  1 to 5 is \<open>100 * count(value = v) / count(valid values)\<close> rounded to 1 decimal. When
  every valid response is one of 1, 2, 3, 4, 5, the five percentages sum to 100 within
  0.2.
\<close>

theorem item_benchmark_and_distribution:
  assumes "item_valid L df row \<noteq> []"
  shows "let valid = item_valid L df row; it = item_dict L df row;
             pct = (\<lambda>v. py_round (100 * of_nat (length (filter (\<lambda>x. x = v) valid))
                                  / of_nat (length valid)) 1)
         in benchmark it = Some (py_round (max 0 (min 5 (mean valid - 0.25))) 2)
            \<and> veryLow it = pct 1 \<and> low it = pct 2 \<and> medium it = pct 3
            \<and> high it = pct 4 \<and> veryHigh it = pct 5
            \<and> (set valid \<subseteq> {1, 2, 3, 4, 5} \<longrightarrow>
                 \<bar>veryLow it + low it + medium it + high it + veryHigh it - 100\<bar> \<le> 0.2)"
proof -
  let ?valid = "item_valid L df row"
  have f: "benchmark (item_dict L df row) = Some (py_round (max 0 (min 5 (mean ?valid - 0.25))) 2)"
    "veryLow (item_dict L df row) = dist_pct ?valid 1"
    "low (item_dict L df row) = dist_pct ?valid 2"
    "medium (item_dict L df row) = dist_pct ?valid 3"
    "high (item_dict L df row) = dist_pct ?valid 4"
    "veryHigh (item_dict L df row) = dist_pct ?valid 5"
    using assms by (simp_all add: item_dict_def Let_def)
  have p: "dist_pct ?valid v = py_round (100 * of_nat (length (filter (\<lambda>x. x = v) ?valid))
                                  / of_nat (length ?valid)) 1" for v
    using assms by (simp add: dist_pct_def Let_def mult.commute)
  have s: "set ?valid \<subseteq> {1, 2, 3, 4, 5} \<longrightarrow>
      \<bar>dist_pct ?valid 1 + dist_pct ?valid 2 + dist_pct ?valid 3 + dist_pct ?valid 4
          + dist_pct ?valid 5 - 100\<bar> \<le> 0.2"
    using dist_pct_sum [OF assms] by blast
  show ?thesis
    unfolding Let_def f using p s by simp
qed

text \<open>On item \<open>Q3\<close> of the example, with the valid responses 1, 2, 2: the mean is 5/3,
  the benchmark 1.42, and the percentages 33.3 and 66.7 sum to 100.\<close>

theorem item_benchmark_and_distribution_witness:
  "item_valid ex_lib ex_survey ex_item_q3 = [1, 2, 2]
   \<and> benchmark (item_dict ex_lib ex_survey ex_item_q3) = Some 1.42
   \<and> veryLow (item_dict ex_lib ex_survey ex_item_q3) = 33.3
   \<and> low (item_dict ex_lib ex_survey ex_item_q3) = 66.7
   \<and> medium (item_dict ex_lib ex_survey ex_item_q3) = 0
   \<and> high (item_dict ex_lib ex_survey ex_item_q3) = 0
   \<and> veryHigh (item_dict ex_lib ex_survey ex_item_q3) = 0"
proof -
  have ne: "item_valid ex_lib ex_survey ex_item_q3 \<noteq> []" by (simp add: ex_valid_q3)
  show ?thesis
    using item_benchmark_and_distribution [OF ne]
    by (simp add: ex_valid_q3 mean_def round_defs)
qed

text \<open>The claim as stated fails on item \<open>Q1\<close> of the example, with the valid responses
  1, 1, 6: \<open>clamp(mean - 0.25, 0, 5)\<close> is 29/12 but the benchmark is 2.42, and the five
  percentages sum to 66.7.\<close>

theorem item_benchmark_and_distribution_counterexample:
  "item_valid ex_lib ex_survey ex_item_q1 = [1, 1, 6]
   \<and> max 0 (min 5 (mean [1, 1, 6] - 0.25)) = 29 / 12
   \<and> benchmark (item_dict ex_lib ex_survey ex_item_q1) = Some 2.42
   \<and> veryLow (item_dict ex_lib ex_survey ex_item_q1) + low (item_dict ex_lib ex_survey ex_item_q1)
       + medium (item_dict ex_lib ex_survey ex_item_q1) + high (item_dict ex_lib ex_survey ex_item_q1)
       + veryHigh (item_dict ex_lib ex_survey ex_item_q1) = 66.7"
  by (simp add: item_dict_def ex_valid_q1 mean_def dist_pct_def round_defs)

text \<open>
  C7 (as amended). For every item whose header name is not a column of the table, the
  item body takes no branch that reads the table and produces an item whose mean is
  null, whose benchmark is 0.0 (not null), and whose five distribution percentages
  and three aggregated percentages are all zero; nothing is added to the scores.
\<close>

theorem item_missing_column:
  assumes "col_name_of L row \<notin> set (columns df)"
  shows "item_dict L df row =
       \<lparr>question = strip L (str_of_cell (question_name row)), header = col_name_of L row,
        subcategory = strip L (str_of_cell (minor row)),
        average = None, benchmark = Some 0,
        veryLow = 0, low = 0, medium = 0, high = 0, veryHigh = 0,
        neg_pct = 0, mid_pct = 0, pos_pct = 0\<rparr>
     \<and> item_avg L df row = None"
  using assms by (simp add: item_dict_def item_avg_def item_valid_def Let_def)

theorem item_missing_column_witness:
  "col_name_of ex_lib ex_item_q9 \<notin> set (columns ex_survey)
   \<and> average (item_dict ex_lib ex_survey ex_item_q9) = None
   \<and> benchmark (item_dict ex_lib ex_survey ex_item_q9) = Some 0
   \<and> veryLow (item_dict ex_lib ex_survey ex_item_q9) = 0
   \<and> veryHigh (item_dict ex_lib ex_survey ex_item_q9) = 0
   \<and> item_avg ex_lib ex_survey ex_item_q9 = None"
proof -
  have h: "col_name_of ex_lib ex_item_q9 \<notin> set (columns ex_survey)"
    by (simp add: agg_defs)
  show ?thesis
    using item_missing_column [OF h] h by simp
qed

text \<open>The claim as stated fails on item \<open>Q9\<close> of the example, which the table does not
  have: its benchmark is the number 0, not null.\<close>

theorem item_missing_column_counterexample:
  "col_name_of ex_lib ex_item_q9 \<notin> set (columns ex_survey)
   \<and> benchmark (item_dict ex_lib ex_survey ex_item_q9) \<noteq> None"
  by (simp add: item_dict_def ex_valid_q9 agg_defs)

section \<open>Category Aggregator\<close>

lemma item_loop_result:
  "item_loop L df es (si, ss, as) =
     (si @ map (item_dict L df) es, ss @ List.map_filter (item_avg L df) es,
      as @ List.map_filter (item_avg L df) es)"
proof (induction es arbitrary: si ss as)
  case Nil
  then show ?case by (simp add: List.map_filter_simps)
next
  case (Cons e es)
  then show ?case
    by (cases "item_avg L df e") (simp_all add: List.map_filter_simps)
qed

lemma sub_loop_result:
  "sub_loop L df qdf ks (subs, as) =
     (subs @ map (\<lambda>k. \<lparr>sc_name = k,
                         sc_average = avg_round2 (List.map_filter (item_avg L df) (sub_rows qdf k)),
                         sc_items = map (item_dict L df) (sub_rows qdf k),
                         sc_item_count = length (sub_rows qdf k)\<rparr>) (dropna ks),
      as @ concat (map (\<lambda>k. List.map_filter (item_avg L df) (sub_rows qdf k)) (dropna ks)))"
proof (induction ks arbitrary: subs as)
  case Nil
  then show ?case by (simp add: dropna_def List.map_filter_simps)
next
  case (Cons k ks)
  show ?case
  proof (cases k)
    case None
    with Cons show ?thesis by (simp add: dropna_def List.map_filter_simps)
  next
    case (Some name)
    with Cons show ?thesis
      by (simp add: dropna_def List.map_filter_simps item_loop_result sub_rows_def Let_def)
  qed
qed

lemma unique_acc_set: "set (unique_acc seen xs) = set xs - set seen"
  by (induction xs arbitrary: seen) auto

lemma unique_acc_distinct: "distinct (unique_acc seen xs)"
  by (induction xs arbitrary: seen) (auto simp: unique_acc_set)

lemma unique_set: "set (unique xs) = set xs"
  by (simp add: unique_def unique_acc_set)

lemma unique_distinct: "distinct (unique xs)"
  by (simp add: unique_def unique_acc_distinct)

lemma dropna_distinct: "distinct cs \<Longrightarrow> distinct (dropna cs)"
proof (induction cs)
  case Nil
  then show ?case by (simp add: dropna_def List.map_filter_simps)
next
  case (Cons c cs)
  then have "distinct (dropna cs)" by simp
  moreover have "dropna (c # cs) = (case c of None \<Rightarrow> dropna cs | Some k \<Rightarrow> k # dropna cs)"
    by (cases c) (simp_all add: dropna_def List.map_filter_simps)
  moreover have "c = Some k \<Longrightarrow> k \<notin> set (dropna cs)" for k
    using Cons.prems by (simp add: set_dropna)
  ultimately show ?case by (cases c) simp_all
qed

lemma mset_filter_split:
  "(\<And>x. x \<in> set xs \<Longrightarrow> \<not> (P x \<and> Q x)) \<Longrightarrow>
   mset (filter P xs) + mset (filter Q xs) = mset (filter (\<lambda>x. P x \<or> Q x) xs)"
  by (induction xs) auto

lemma mset_groups:
  assumes "distinct ks"
  shows "mset (concat (map (\<lambda>k. filter (\<lambda>x. f x = Some k) xs) ks))
       = mset (filter (\<lambda>x. \<exists>k \<in> set ks. f x = Some k) xs)"
  using assms
proof (induction ks)
  case Nil
  then show ?case by simp
next
  case (Cons k ks)
  have "mset (concat (map (\<lambda>k. filter (\<lambda>x. f x = Some k) xs) (k # ks)))
      = mset (filter (\<lambda>x. f x = Some k) xs) + mset (filter (\<lambda>x. \<exists>k \<in> set ks. f x = Some k) xs)"
    using Cons by simp
  also have "\<dots> = mset (filter (\<lambda>x. f x = Some k \<or> (\<exists>k \<in> set ks. f x = Some k)) xs)"
    using Cons.prems by (intro mset_filter_split) auto
  also have "\<dots> = mset (filter (\<lambda>x. \<exists>k \<in> set (k # ks). f x = Some k) xs)"
    by simp
  finally show ?case .
qed

lemma map_filter_concat:
  "List.map_filter h (concat xss) = concat (map (List.map_filter h) xss)"
  by (induction xss) (simp_all add: List.map_filter_def)

lemma mset_map_filter:
  "mset (List.map_filter h xs) = image_mset (\<lambda>x. the (h x)) (filter_mset (\<lambda>x. h x \<noteq> None) (mset xs))"
  by (induction xs) (auto simp: List.map_filter_simps)

lemma mset_map_filter_cong:
  "mset xs = mset ys \<Longrightarrow> mset (List.map_filter h xs) = mset (List.map_filter h ys)"
  by (simp add: mset_map_filter)

lemma avg_round2_cong:
  assumes "mset xs = mset ys"
  shows "avg_round2 xs = avg_round2 ys"
proof -
  have "sum_list xs = sum_list ys" using assms by (metis sum_mset_sum_list)
  moreover have "length xs = length ys" using assms by (metis size_mset)
  moreover have "xs = [] \<longleftrightarrow> ys = []" using assms by (metis mset_zero_iff)
  ultimately show ?thesis by (simp add: avg_round2_def)
qed

lemma labelled_filter:
  "filter (\<lambda>x. \<exists>k \<in> {k. Some k \<in> minor ` set qdf}. minor x = Some k) qdf
     = filter (\<lambda>row. minor row \<noteq> None) qdf"
proof (rule filter_cong [OF refl])
  fix x assume x: "x \<in> set qdf"
  show "(\<exists>k \<in> {k. Some k \<in> minor ` set qdf}. minor x = Some k) = (minor x \<noteq> None)"
  proof (cases "minor x")
    case None
    then show ?thesis by simp
  next
    case (Some k)
    have "Some k \<in> minor ` set qdf" using x Some by (metis imageI)
    with Some show ?thesis by simp
  qed
qed

lemma sub_keys_set: "set (dropna (unique (map minor qdf))) = {k. Some k \<in> minor ` set qdf}"
  by (simp add: set_dropna unique_set)

lemma sub_keys_distinct: "distinct (dropna (unique (map minor qdf)))"
  by (simp add: dropna_distinct unique_distinct)

lemma sub_rows_mset:
  "mset (concat (map (\<lambda>k. sub_rows qdf k) (dropna (unique (map minor qdf)))))
     = mset (filter (\<lambda>row. minor row \<noteq> None) qdf)"
proof -
  have "mset (concat (map (\<lambda>k. sub_rows qdf k) (dropna (unique (map minor qdf)))))
      = mset (filter (\<lambda>x. \<exists>k \<in> set (dropna (unique (map minor qdf))). minor x = Some k) qdf)"
    unfolding sub_rows_def by (rule mset_groups [OF sub_keys_distinct])
  then show ?thesis unfolding sub_keys_set labelled_filter .
qed

lemma all_scores_mset:
  "mset (concat (map (\<lambda>k. List.map_filter (item_avg L df) (sub_rows qdf k))
           (dropna (unique (map minor qdf)))))
   = mset (List.map_filter (item_avg L df) (filter (\<lambda>row. minor row \<noteq> None) qdf))"
proof -
  let ?ks = "dropna (unique (map minor qdf))"
  have "concat (map (\<lambda>k. List.map_filter (item_avg L df) (sub_rows qdf k)) ?ks)
      = List.map_filter (item_avg L df) (concat (map (\<lambda>k. sub_rows qdf k) ?ks))"
    by (simp add: map_filter_concat comp_def)
  then show ?thesis
    using mset_map_filter_cong [OF sub_rows_mset, of "item_avg L df" qdf] by simp
qed

lemma all_items_mset:
  "mset (concat (map (\<lambda>k. map (item_dict L df) (sub_rows qdf k))
           (dropna (unique (map minor qdf)))))
   = mset (map (item_dict L df) (filter (\<lambda>row. minor row \<noteq> None) qdf))"
proof -
  let ?ks = "dropna (unique (map minor qdf))"
  have "concat (map (\<lambda>k. map (item_dict L df) (sub_rows qdf k)) ?ks)
      = map (item_dict L df) (concat (map (\<lambda>k. sub_rows qdf k) ?ks))"
    by (simp add: map_concat comp_def)
  then show ?thesis
    using sub_rows_mset [of qdf] by (metis mset_map)
qed

lemma build_category_result:
  assumes "category_rows L idx big \<noteq> []"
  shows "build_category L df idx big =
     (let qdf = category_rows L idx big; ks = dropna (unique (map minor qdf))
      in Some \<lparr>cat_name = big,
           cat_average = avg_round2 (concat (map (\<lambda>k. List.map_filter (item_avg L df) (sub_rows qdf k)) ks)),
           cat_subcategories = map (\<lambda>k. \<lparr>sc_name = k,
                         sc_average = avg_round2 (List.map_filter (item_avg L df) (sub_rows qdf k)),
                         sc_items = map (item_dict L df) (sub_rows qdf k),
                         sc_item_count = length (sub_rows qdf k)\<rparr>) ks,
           cat_items = concat (map (\<lambda>k. map (item_dict L df) (sub_rows qdf k)) ks)\<rparr>)"
  using assms
  by (simp add: build_category_def Let_def sub_loop_result comp_def)

lemma build_category_None:
  "build_category L df idx big = None \<longleftrightarrow> category_rows L idx big = []"
  by (simp add: build_category_def Let_def split: prod.splits)

text \<open>
  C3 (as amended). In the Category Aggregator an item whose sub-category label is
  missing is skipped altogether: it is in no sub-category group and among no items of
  the category, and its mean is not part of the category average. The category
  average is the mean, rounded to 2 decimals, of the non-null means of the items of
  the category that have a sub-category label, and null when there is none.
\<close>

theorem category_average_labelled_items:
  assumes "build_category L df idx big = Some cat"
  shows "cat_average cat = avg_round2 (List.map_filter (item_avg L df) (labelled_rows L idx big))
     \<and> mset (cat_items cat) = mset (map (item_dict L df) (labelled_rows L idx big))
     \<and> set (map sc_name (cat_subcategories cat))
         = {k. Some k \<in> minor ` set (category_rows L idx big)}"
proof -
  let ?qdf = "category_rows L idx big"
  let ?ks = "dropna (unique (map minor ?qdf))"
  have ne: "?qdf \<noteq> []" using assms build_category_None [of L df idx big] by auto
  have cat: "cat = \<lparr>cat_name = big,
           cat_average = avg_round2 (concat (map (\<lambda>k. List.map_filter (item_avg L df) (sub_rows ?qdf k)) ?ks)),
           cat_subcategories = map (\<lambda>k. \<lparr>sc_name = k,
                         sc_average = avg_round2 (List.map_filter (item_avg L df) (sub_rows ?qdf k)),
                         sc_items = map (item_dict L df) (sub_rows ?qdf k),
                         sc_item_count = length (sub_rows ?qdf k)\<rparr>) ?ks,
           cat_items = concat (map (\<lambda>k. map (item_dict L df) (sub_rows ?qdf k)) ?ks)\<rparr>"
    using assms build_category_result [OF ne, of df] by (simp add: Let_def)
  have 1: "cat_average cat = avg_round2 (List.map_filter (item_avg L df) (labelled_rows L idx big))"
    unfolding labelled_rows_def
    by (subst cat) (simp add: avg_round2_cong [OF all_scores_mset])
  have 2: "mset (cat_items cat) = mset (map (item_dict L df) (labelled_rows L idx big))"
    unfolding labelled_rows_def by (subst cat) (simp add: all_items_mset)
  have 3: "set (map sc_name (cat_subcategories cat))
         = {k. Some k \<in> minor ` set (category_rows L idx big)}"
    by (subst cat) (simp add: comp_def sub_keys_set)
  from 1 2 3 show ?thesis by blast
qed

text \<open>On the example index every row is of category \<open>Input\<close>; the labelled rows are
  \<open>Q2\<close>, \<open>Q9\<close> and \<open>Q3\<close>, with the item means 5, none and 5/3, so the category average
  is 3.33.\<close>

lemma ex_category_rows: "category_rows ex_lib ex_index (ascii ''Input'') = ex_index"
  by (simp add: category_rows_def ex_index_def major_clean_def split_ws_def strip_def
      str_of_cell_def ex_lib_def ex_contains_def ex_lower_def ex_isspace_def ascii_def
      ex_item_q1_def ex_item_q2_def ex_item_q3_def ex_item_q9_def)

lemma ex_labelled_rows:
  "labelled_rows ex_lib ex_index (ascii ''Input'') = [ex_item_q2, ex_item_q9, ex_item_q3]"
  unfolding labelled_rows_def ex_category_rows
  by (simp add: ex_index_def ex_item_q1_def ex_item_q2_def ex_item_q3_def ex_item_q9_def)

lemma ex_item_avgs:
  "item_avg ex_lib ex_survey ex_item_q1 = Some (8 / 3)"
  "item_avg ex_lib ex_survey ex_item_q2 = Some 5"
  "item_avg ex_lib ex_survey ex_item_q3 = Some (5 / 3)"
  "item_avg ex_lib ex_survey ex_item_q9 = None"
  by (simp_all add: item_avg_def ex_valid_q1 ex_valid_q2 ex_valid_q3 ex_valid_q9 mean_def)

theorem category_average_labelled_items_witness:
  "\<exists>cat. build_category ex_lib ex_survey ex_index (ascii ''Input'') = Some cat
     \<and> cat_average cat = Some 3.33
     \<and> set (map sc_name (cat_subcategories cat)) = {ascii ''S'', ascii ''T''}"
proof -
  have "build_category ex_lib ex_survey ex_index (ascii ''Input'') \<noteq> None"
    unfolding build_category_None ex_category_rows by (simp add: ex_index_def)
  then obtain cat where c: "build_category ex_lib ex_survey ex_index (ascii ''Input'') = Some cat"
    by blast
  have k: "{k. Some k \<in> minor ` set ex_index} = {ascii ''S'', ascii ''T''}"
    by (auto simp: ex_index_def ex_item_q1_def ex_item_q2_def ex_item_q3_def ex_item_q9_def)
  have "cat_average cat = Some 3.33
     \<and> set (map sc_name (cat_subcategories cat)) = {ascii ''S'', ascii ''T''}"
    using category_average_labelled_items [OF c]
    unfolding ex_labelled_rows ex_category_rows k
    by (simp add: List.map_filter_simps ex_item_avgs avg_round2_def round_defs)
  with c show ?thesis by blast
qed

text \<open>The claim as stated fails on the example: item \<open>Q1\<close> is of category \<open>Input\<close>, has
  no sub-category label and has the mean 8/3; the mean of all three non-null item
  means is 3.11, but the category average is 3.33, the mean of the two labelled items
  with a mean.\<close>

theorem category_average_labelled_items_counterexample:
  "ex_item_q1 \<in> set (category_rows ex_lib ex_index (ascii ''Input''))
   \<and> minor ex_item_q1 = None
   \<and> item_avg ex_lib ex_survey ex_item_q1 = Some (8 / 3)
   \<and> avg_round2 (List.map_filter (item_avg ex_lib ex_survey)
         (category_rows ex_lib ex_index (ascii ''Input''))) = Some 3.11
   \<and> map_option cat_average (build_category ex_lib ex_survey ex_index (ascii ''Input''))
       = Some (Some 3.33)"
proof -
  have ne: "category_rows ex_lib ex_index (ascii ''Input'') \<noteq> []"
    unfolding ex_category_rows by (simp add: ex_index_def)
  have u: "dropna (unique (map minor ex_index)) = [ascii ''S'', ascii ''T'']"
    by (simp add: ex_index_def ex_item_q1_def ex_item_q2_def ex_item_q3_def ex_item_q9_def
        unique_def dropna_def List.map_filter_simps ascii_def)
  have r: "sub_rows ex_index (ascii ''S'') = [ex_item_q2, ex_item_q9]"
    "sub_rows ex_index (ascii ''T'') = [ex_item_q3]"
    by (simp_all add: sub_rows_def ex_index_def ex_item_q1_def ex_item_q2_def ex_item_q3_def
        ex_item_q9_def ascii_def)
  have a: "map_option cat_average (build_category ex_lib ex_survey ex_index (ascii ''Input''))
       = Some (Some 3.33)"
    unfolding build_category_result [OF ne] Let_def ex_category_rows u
    by (simp add: r List.map_filter_simps ex_item_avgs avg_round2_def round_defs)
  have b: "avg_round2 (List.map_filter (item_avg ex_lib ex_survey) ex_index) = Some 3.11"
    by (simp add: ex_index_def List.map_filter_simps ex_item_avgs avg_round2_def round_defs)
  have c: "ex_item_q1 \<in> set ex_index" "minor ex_item_q1 = None"
    by (simp_all add: ex_index_def ex_item_q1_def)
  show ?thesis
    unfolding ex_category_rows using a b c ex_item_avgs(1) by simp
qed

section \<open>Free-text answers\<close>

lemma strip_Nil: "strip L [] = []"
  by (simp add: strip_def)

lemma dedup_by_unseen:
  "f x \<notin> seen \<Longrightarrow>
   dedup_by f (filter (\<lambda>c. f c \<notin> seen) (x # xs))
     = x # dedup_by f (filter (\<lambda>c. f c \<notin> insert (f x) seen) xs)"
proof -
  assume "f x \<notin> seen"
  moreover have "filter (\<lambda>y. f y \<noteq> f x) (filter (\<lambda>c. f c \<notin> seen) xs)
      = filter (\<lambda>c. f c \<notin> insert (f x) seen) xs"
    by (simp add: conj_commute)
  ultimately show ?thesis by simp
qed

lemma clean_loop_result:
  "clean_loop L g raw (ca, seen) =
     (ca @ map (mask_sensitive_content L)
             (dedup_by (normalized_form L) (filter (\<lambda>c. normalized_form L c \<notin> seen) (eligible L g raw))),
      seen \<union> normalized_form L ` set (dedup_by (normalized_form L)
             (filter (\<lambda>c. normalized_form L c \<notin> seen) (eligible L g raw))))"
proof (induction raw arbitrary: ca seen)
  case Nil
  then show ?case by (simp add: eligible_def)
next
  case (Cons answer raw)
  let ?c = "strip L answer"
  have e: "eligible L g (answer # raw) =
      (if 10 \<le> length ?c \<and> normalized_form L ?c \<notin> g then ?c # eligible L g raw else eligible L g raw)"
    by (simp add: eligible_def)
  show ?case
  proof (cases "answer = [] \<or> length ?c < 10 \<or> normalized_form L ?c \<in> g")
    case True
    then have "eligible L g (answer # raw) = eligible L g raw"
      unfolding e by (auto simp: strip_Nil)
    moreover from True have "clean_loop L g (answer # raw) (ca, seen) = clean_loop L g raw (ca, seen)"
      by (auto simp: Let_def strip_Nil)
    ultimately show ?thesis using Cons.IH by simp
  next
    case False
    then have el: "eligible L g (answer # raw) = ?c # eligible L g raw"
      unfolding e by auto
    show ?thesis
    proof (cases "normalized_form L ?c \<in> seen")
      case True
      with False have "clean_loop L g (answer # raw) (ca, seen) = clean_loop L g raw (ca, seen)"
        by (auto simp: Let_def)
      with True show ?thesis unfolding el using Cons.IH by simp
    next
      case unseen: False
      with False have "clean_loop L g (answer # raw) (ca, seen)
          = clean_loop L g raw (ca @ [mask_sensitive_content L ?c], insert (normalized_form L ?c) seen)"
        by (auto simp: Let_def)
      moreover have "dedup_by (normalized_form L) (filter (\<lambda>c. normalized_form L c \<notin> seen) (?c # eligible L g raw))
          = ?c # dedup_by (normalized_form L)
                  (filter (\<lambda>c. normalized_form L c \<notin> insert (normalized_form L ?c) seen) (eligible L g raw))"
        using unseen by (rule dedup_by_unseen [of "normalized_form L" ?c seen])
      ultimately show ?thesis
        unfolding el Cons.IH by simp
    qed
  qed
qed

lemma clean_loop_retained:
  "fst (clean_loop L g raw ([], {})) = map (mask_sensitive_content L) (retained L g raw)"
  by (simp add: clean_loop_result retained_def)

lemma eligible_empty_used:
  "eligible L {} raw = filter (\<lambda>c. 10 \<le> length c) (map (strip L) raw)"
  by (simp add: eligible_def)

lemma preprocess_fst:
  "fst (preprocess_answer_list L raw g) =
     (let kept = map (mask_sensitive_content L) (retained L g raw)
      in if 20 < length kept then take 20 (sort_key (\<lambda>a. - int (length a)) kept) else kept)"
proof (cases "raw = []")
  case True
  then show ?thesis
    by (simp add: preprocess_answer_list_def retained_def eligible_def)
next
  case False
  then show ?thesis
    by (simp add: preprocess_answer_list_def Let_def clean_loop_retained)
qed

lemma preprocess_snd:
  "snd (preprocess_answer_list L raw g)
     = g \<union> normalized_form L ` set (take 3 (fst (preprocess_answer_list L raw g)))"
  by (simp add: preprocess_answer_list_def Let_def)

lemma longest_first:
  fixes kept :: "ustr list"
  defines "out \<equiv> take 20 (sort_key (\<lambda>a. - int (length a)) kept)"
  shows "sorted_wrt (\<lambda>a b. length b \<le> length a) out"
    and "mset out \<subseteq># mset kept"
    and "\<forall>a \<in># mset kept - mset out. \<forall>b \<in> set out. length a \<le> length b"
proof -
  let ?f = "\<lambda>a :: ustr. - int (length a)"
  let ?ys = "sort_key ?f kept"
  have srt: "sorted (map ?f ?ys)" by (rule sorted_sort_key)
  have split: "?ys = take 20 ?ys @ drop 20 ?ys" by simp
  have "sorted (map ?f (take 20 ?ys))" using srt by (simp add: sorted_wrt_take take_map [symmetric])
  then show "sorted_wrt (\<lambda>a b. length b \<le> length a) out"
    unfolding out_def sorted_map by simp
  have m: "mset kept = mset out + mset (drop 20 ?ys)"
    unfolding out_def by (metis append_take_drop_id mset_append mset_sort)
  then show "mset out \<subseteq># mset kept" by simp
  have "sorted (map ?f (take 20 ?ys) @ map ?f (drop 20 ?ys))"
    using srt by (metis append_take_drop_id map_append)
  then have "\<forall>b \<in> set (take 20 ?ys). \<forall>a \<in> set (drop 20 ?ys). ?f b \<le> ?f a"
    unfolding sorted_append by auto
  moreover have "mset kept - mset out = mset (drop 20 ?ys)" using m by simp
  ultimately show "\<forall>a \<in># mset kept - mset out. \<forall>b \<in> set out. length a \<le> length b"
    unfolding out_def by auto
qed

text \<open>A text in which no character can be matched by some atom that a pattern must
  match at least once contains no match of the pattern, and is left unchanged.\<close>

lemma rep_cands_rest:
  "(k', p', s') \<in> set (rep_cands L cs mx k p s) \<Longrightarrow> set s' \<subseteq> set s"
proof (induction s arbitrary: k p)
  case Nil
  then show ?case by simp
next
  case (Cons c s)
  from Cons.prems have "(k', p', s') = (k, p, c # s) \<or> (k', p', s') \<in> set (rep_cands L cs mx (Suc k) (Some c) s)"
    by (auto split: if_splits)
  then show ?case
  proof
    assume "(k', p', s') = (k, p, c # s)"
    then show ?thesis by simp
  next
    assume "(k', p', s') \<in> set (rep_cands L cs mx (Suc k) (Some c) s)"
    then have "set s' \<subseteq> set s" by (rule Cons.IH)
    then show ?thesis by auto
  qed
qed

lemma rep_cands_no_match:
  "\<forall>c \<in> set s. \<not> in_class L cs c \<Longrightarrow> rep_cands L cs mx k p s = [(k, p, s)]"
  by (cases s) simp_all

lemma needs_mono: "needs L pat s \<Longrightarrow> set s' \<subseteq> set s \<Longrightarrow> needs L pat s'"
  by (induction L pat s rule: needs.induct) auto

lemma ends_needs: "needs L pat s \<Longrightarrow> ends L pat p s = []"
proof (induction pat arbitrary: p s)
  case Nil
  then show ?case by simp
next
  case (Cons a pat)
  show ?case
  proof (cases a)
    case Boundary
    with Cons show ?thesis by simp
  next
    case (Rep cs mn mx)
    show ?thesis
    proof (cases "0 < mn \<and> (\<forall>c \<in> set s. \<not> in_class L cs c)")
      case True
      then have "rep_cands L cs mx 0 p s = [(0, p, s)]" by (simp add: rep_cands_no_match)
      with True Rep show ?thesis by simp
    next
      case False
      with Cons.prems Rep have n: "needs L pat s" by simp
      have "ends L pat p' s' = []" if "(k, p', s') \<in> set (rep_cands L cs mx 0 p s)" for k p' s'
      proof -
        from that have "set s' \<subseteq> set s" by (rule rep_cands_rest)
        with n have "needs L pat s'" by (rule needs_mono)
        then show ?thesis by (rule Cons.IH)
      qed
      then have "\<forall>x \<in> set (filter (\<lambda>(k, p', s'). mn \<le> k) (rev (rep_cands L cs mx 0 p s))).
          (case x of (k, p', s') \<Rightarrow> map (\<lambda>r. k + r) (ends L pat p' s')) = []"
        by auto
      then show ?thesis unfolding Rep by (simp only: ends.simps concat_eq_Nil_conv set_map) auto
    qed
  qed
qed

lemma sub_from_needs: "needs L pat s \<Longrightarrow> sub_from L pat repl p s = s"
proof (induction s arbitrary: p)
  case Nil
  then show ?case by simp
next
  case (Cons c s)
  have "re_match L pat p (c # s) = None"
    using Cons.prems by (simp add: re_match_def ends_needs)
  moreover have "needs L pat s" using Cons.prems by (rule needs_mono) auto
  ultimately show ?case using Cons.IH by simp
qed

lemma mask_plain_text:
  assumes "64 \<notin> set s" "54016 \<notin> set s" "\<forall>c \<in> set s. \<not> py_isdecimal L c"
  shows "mask_sensitive_content L s = s"
proof -
  have "needs L EMAIL_RE s" using assms(1) by (auto simp: EMAIL_RE_def in_class_def)
  then have 1: "re_sub L EMAIL_RE EMAIL_MASK s = s" by (simp add: re_sub_def sub_from_needs)
  have "needs L PHONE_RE s" using assms(3) by (auto simp: PHONE_RE_def in_class_def)
  then have 2: "re_sub L PHONE_RE PHONE_MASK s = s" by (simp add: re_sub_def sub_from_needs)
  have "needs L TEAM_RE s" using assms(2) by (auto simp: TEAM_RE_def in_class_def)
  then have 3: "re_sub L TEAM_RE TEAM_MASK s = s" by (simp add: re_sub_def sub_from_needs)
  show ?thesis by (simp add: mask_sensitive_content_def 1 2 3)
qed

lemmas re_defs = mask_sensitive_content_def re_sub_def re_match_def EMAIL_RE_def PHONE_RE_def
  TEAM_RE_def in_class_def boundary_def is_word_def ex_lib_def ex_isalnum_def ex_isdecimal_def
  ex_isspace_def

lemmas text_defs = strip_def normalized_form_def split_ws_def ex_lib_def ex_isspace_def ex_lower_def

lemma length_ascii: "length (ascii s) = length s"
  by (simp add: ascii_def)

lemma ascii_eq_iff: "ascii a = ascii b \<longleftrightarrow> a = b"
  by (simp add: ascii_def inj_map_eq_map inj_on_def)

lemma ascii_Nil_iff: "ascii a = [] \<longleftrightarrow> a = []"
  by (simp add: ascii_def)

lemma ex_culture_strip:
  "strip ex_lib (ascii ''ok'') = ascii ''ok''"
  "strip ex_lib (ascii ''this is a sufficiently long response about culture'')
     = ascii ''this is a sufficiently long response about culture''"
  "strip ex_lib (ascii ''this is a sufficiently long response about culture '')
     = ascii ''this is a sufficiently long response about culture''"
  by (simp_all add: text_defs ascii_def)

lemma ex_culture_normalize:
  "normalized_form ex_lib (ascii ''this is a sufficiently long response about culture'')
     = ascii ''this is a sufficiently long response about culture''"
  by (simp add: text_defs ascii_def)

lemma ex_culture_mask:
  "mask_sensitive_content ex_lib (ascii ''this is a sufficiently long response about culture'')
     = ascii ''this is a sufficiently long response about culture''"
  by (rule mask_plain_text) (simp_all add: ascii_def ex_lib_def ex_isdecimal_def)

lemma ex_culture_retained:
  "fst (preprocess_answer_list ex_lib ex_culture_answers {})
     = [ascii ''this is a sufficiently long response about culture'']"
  by (simp add: preprocess_answer_list_def ex_culture_answers_def Let_def ex_culture_strip
      ex_culture_normalize ex_culture_mask length_ascii ascii_Nil_iff)

lemma ex_two_strip:
  "strip ex_lib (ascii ''short answer'') = ascii ''short answer''"
  "strip ex_lib (ascii ''a much longer answer'') = ascii ''a much longer answer''"
  by (simp_all add: text_defs ascii_def)

lemma ex_two_normalize:
  "normalized_form ex_lib (ascii ''short answer'') = ascii ''short answer''"
  "normalized_form ex_lib (ascii ''a much longer answer'') = ascii ''a much longer answer''"
  by (simp_all add: text_defs ascii_def)

lemma ex_two_mask:
  "mask_sensitive_content ex_lib (ascii ''short answer'') = ascii ''short answer''"
  "mask_sensitive_content ex_lib (ascii ''a much longer answer'') = ascii ''a much longer answer''"
  by (rule mask_plain_text; simp add: ascii_def ex_lib_def ex_isdecimal_def)+

lemma ex_two_retained:
  "fst (preprocess_answer_list ex_lib ex_two_answers {})
     = [ascii ''short answer'', ascii ''a much longer answer'']"
  by (simp add: preprocess_answer_list_def ex_two_answers_def Let_def ex_two_strip
      ex_two_normalize ex_two_mask length_ascii ascii_Nil_iff ascii_eq_iff)

lemma dedup_by_distinct: "distinct (map f xs) \<Longrightarrow> dedup_by f xs = xs"
proof (induction xs)
  case Nil
  then show ?case by simp
next
  case (Cons x xs)
  from Cons.prems have nx: "f x \<notin> f ` set xs" by simp
  have "filter (\<lambda>y. f y \<noteq> f x) xs = xs"
    unfolding filter_id_conv
  proof
    fix y assume "y \<in> set xs"
    then have "f y \<in> f ` set xs" by (rule imageI)
    with nx show "f y \<noteq> f x" by metis
  qed
  with Cons show ?case by simp
qed

lemma split_acc_word:
  "\<not> py_isspace L c \<Longrightarrow> w @ replicate n c \<noteq> [] \<Longrightarrow>
   split_acc L w (replicate n c) = [w @ replicate n c]"
proof (induction n arbitrary: w)
  case 0
  then show ?case by simp
next
  case (Suc n)
  have "split_acc L w (replicate (Suc n) c) = split_acc L (w @ [c]) (replicate n c)"
    using Suc.prems(1) by simp
  also have "\<dots> = [(w @ [c]) @ replicate n c]"
    using Suc.prems(1) by (intro Suc.IH) simp_all
  finally show ?case by (simp add: replicate_app_Cons_same)
qed

lemma ex_letters:
  assumes "0 < n"
  shows "strip ex_lib (replicate n 97) = replicate n 97"
    and "normalized_form ex_lib (replicate n 97) = replicate n 97"
    and "mask_sensitive_content ex_lib (replicate n 97) = replicate n 97"
proof -
  have sp: "\<not> py_isspace ex_lib 97" by (simp add: ex_lib_def ex_isspace_def)
  show "strip ex_lib (replicate n 97) = replicate n 97"
    using sp by (simp add: strip_def dropWhile_replicate)
  have "split_ws ex_lib (replicate n 97) = [replicate n 97]"
    unfolding split_ws_def using split_acc_word [OF sp, of "[]" n] assms by simp
  moreover have "py_lower ex_lib (replicate n 97) = replicate n 97"
    by (simp add: ex_lib_def ex_lower_def)
  ultimately show "normalized_form ex_lib (replicate n 97) = replicate n 97"
    by (simp add: normalized_form_def)
  show "mask_sensitive_content ex_lib (replicate n 97) = replicate n 97"
    by (rule mask_plain_text) (simp_all add: ex_lib_def ex_isdecimal_def)
qed

lemma ex_many_mem:
  "x \<in> set ex_many_answers \<Longrightarrow> \<exists>n. 10 \<le> n \<and> n < 31 \<and> x = replicate n 97"
  unfolding ex_many_answers_def set_map set_upt by auto

lemma ex_many_kept:
  "map (mask_sensitive_content ex_lib)
     (dedup_by (normalized_form ex_lib) (filter (\<lambda>c. 10 \<le> length c) (map (strip ex_lib) ex_many_answers)))
   = ex_many_answers"
proof -
  have 1: "map (strip ex_lib) ex_many_answers = ex_many_answers"
  proof (rule map_idI)
    fix x assume "x \<in> set ex_many_answers"
    then obtain n where "10 \<le> n" "x = replicate n 97" using ex_many_mem by blast
    then show "strip ex_lib x = x" by (simp add: ex_letters(1))
  qed
  have 2: "filter (\<lambda>c. 10 \<le> length c) ex_many_answers = ex_many_answers"
  proof (rule filter_True)
    show "\<forall>x \<in> set ex_many_answers. 10 \<le> length x"
    proof
      fix x assume "x \<in> set ex_many_answers"
      then obtain n where "10 \<le> n" "x = replicate n 97" using ex_many_mem by blast
      then show "10 \<le> length x" by simp
    qed
  qed
  have 3: "map (normalized_form ex_lib) ex_many_answers = ex_many_answers"
  proof (rule map_idI)
    fix x assume "x \<in> set ex_many_answers"
    then obtain n where "10 \<le> n" "x = replicate n 97" using ex_many_mem by blast
    then show "normalized_form ex_lib x = x" by (simp add: ex_letters(2))
  qed
  have "inj_on (\<lambda>n. replicate n (97::nat)) (set [10..<31])"
    by (rule inj_onI) (metis length_replicate)
  then have "distinct ex_many_answers"
    unfolding ex_many_answers_def by (simp only: distinct_map distinct_upt simp_thms)
  then have 4: "dedup_by (normalized_form ex_lib) ex_many_answers = ex_many_answers"
    by (intro dedup_by_distinct) (simp only: 3)
  have 5: "map (mask_sensitive_content ex_lib) ex_many_answers = ex_many_answers"
  proof (rule map_idI)
    fix x assume "x \<in> set ex_many_answers"
    then obtain n where "10 \<le> n" "x = replicate n 97" using ex_many_mem by blast
    then show "mask_sensitive_content ex_lib x = x" by (simp add: ex_letters(3))
  qed
  show ?thesis by (simp only: 1 2 4 5)
qed

lemma ex_many_length: "length ex_many_answers = 21"
  unfolding ex_many_answers_def by (simp only: length_map length_upt)

text \<open>The second of two questions in the example used below: its first response
  matches a sentence that the first question has used.\<close>

lemma ex_open_strip:
  "strip ex_lib (ascii ''Great teamwork here'') = ascii ''Great teamwork here''"
  "strip ex_lib (ascii ''great  TEAMWORK here'') = ascii ''great  TEAMWORK here''"
  "strip ex_lib (ascii ''Need more training'') = ascii ''Need more training''"
  by (simp_all add: text_defs ascii_def)

lemma ex_open_normalize:
  "normalized_form ex_lib (ascii ''Great teamwork here'') = ascii ''great teamwork here''"
  "normalized_form ex_lib (ascii ''great  TEAMWORK here'') = ascii ''great teamwork here''"
  "normalized_form ex_lib (ascii ''Need more training'') = ascii ''need more training''"
  by (simp_all add: text_defs ascii_def)

lemma ex_open_mask:
  "mask_sensitive_content ex_lib (ascii ''Great teamwork here'') = ascii ''Great teamwork here''"
  "mask_sensitive_content ex_lib (ascii ''Need more training'') = ascii ''Need more training''"
  by (rule mask_plain_text; simp add: ascii_def ex_lib_def ex_isdecimal_def)+

lemma ex_first_question:
  "preprocess_answer_list ex_lib [ascii ''Great teamwork here''] {}
     = ([ascii ''Great teamwork here''], {ascii ''great teamwork here''})"
  by (simp add: preprocess_answer_list_def Let_def ex_open_strip ex_open_normalize ex_open_mask
      length_ascii ascii_Nil_iff)

lemma ex_later_question:
  "preprocess_answer_list ex_lib
       [ascii ''great  TEAMWORK here'', ascii ''Need more training''] {ascii ''great teamwork here''}
     = ([ascii ''Need more training''], {ascii ''great teamwork here'', ascii ''need more training''})"
  by (simp add: preprocess_answer_list_def Let_def ex_open_strip ex_open_normalize ex_open_mask
      length_ascii ascii_Nil_iff ascii_eq_iff insert_commute)

text \<open>
  C9 (as amended). For every free-text question's list of raw responses and every set
  \<open>g\<close> of sentences already used by the earlier questions of the report (empty for the
  first question), the candidates are the responses of at least 10 characters after
  trimming whose normalized form is not in \<open>g\<close>, without those that repeat an earlier
  candidate up to case and whitespace, each with its sensitive content masked. At most
  20 responses are retained. If there are at most 20 candidates, all of them are
  retained in the order of the responses, not ordered by length. If there are more
  than 20, the retained responses are 20 of the candidates, ordered by length
  descending, and no candidate left out is longer than a retained one. For the input
  of the three responses \<open>ok\<close>, a long response, and the same long response with a
  trailing space, exactly one response is retained.
\<close>

theorem free_text_retained:
  "let kept = map (mask_sensitive_content L)
                (dedup_by (normalized_form L)
                   (filter (\<lambda>c. 10 \<le> length c \<and> normalized_form L c \<notin> g) (map (strip L) raw)));
       out = fst (preprocess_answer_list L raw g)
   in length out \<le> 20
      \<and> (length kept \<le> 20 \<longrightarrow> out = kept)
      \<and> (20 < length kept \<longrightarrow>
            length out = 20 \<and> sorted_wrt (\<lambda>a b. length b \<le> length a) out
            \<and> mset out \<subseteq># mset kept
            \<and> (\<forall>a \<in># mset kept - mset out. \<forall>b \<in> set out. length a \<le> length b))
      \<and> length (fst (preprocess_answer_list ex_lib ex_culture_answers {})) = 1"
proof -
  define kept where "kept = map (mask_sensitive_content L)
                (dedup_by (normalized_form L)
                   (filter (\<lambda>c. 10 \<le> length c \<and> normalized_form L c \<notin> g) (map (strip L) raw)))"
  define out where "out = fst (preprocess_answer_list L raw g)"
  have k: "kept = map (mask_sensitive_content L) (retained L g raw)"
    by (simp add: kept_def retained_def eligible_def)
  have o: "out = (if 20 < length kept then take 20 (sort_key (\<lambda>a. - int (length a)) kept) else kept)"
    unfolding out_def k by (simp add: preprocess_fst Let_def)
  have 1: "length out \<le> 20" unfolding o by simp
  have 2: "length kept \<le> 20 \<longrightarrow> out = kept" unfolding o by simp
  have 3: "20 < length kept \<longrightarrow>
            length out = 20 \<and> sorted_wrt (\<lambda>a b. length b \<le> length a) out
            \<and> mset out \<subseteq># mset kept
            \<and> (\<forall>a \<in># mset kept - mset out. \<forall>b \<in> set out. length a \<le> length b)"
  proof
    assume big: "20 < length kept"
    then have o': "out = take 20 (sort_key (\<lambda>a. - int (length a)) kept)" unfolding o by simp
    have "length out = 20" unfolding o' using big by simp
    then show "length out = 20 \<and> sorted_wrt (\<lambda>a b. length b \<le> length a) out
            \<and> mset out \<subseteq># mset kept
            \<and> (\<forall>a \<in># mset kept - mset out. \<forall>b \<in> set out. length a \<le> length b)"
      unfolding o' using longest_first [of kept] by blast
  qed
  have 4: "length (fst (preprocess_answer_list ex_lib ex_culture_answers {})) = 1"
    by (simp add: ex_culture_retained)
  from 1 2 3 4 show ?thesis
    unfolding Let_def kept_def [symmetric] out_def [symmetric] by blast
qed

text \<open>On the examples: the three responses about culture leave one candidate, which
  is retained; the two responses of 12 and 20 characters are both candidates and are
  retained in their order; of the 21 candidates of 10 to 30 letters, 20 are retained,
  the longest first; and for a later question, whose first response matches a
  sentence in the set of used sentences, only the other response is a candidate and
  is retained.\<close>

lemma ex_two_kept:
  "map (mask_sensitive_content ex_lib)
     (dedup_by (normalized_form ex_lib) (filter (\<lambda>c. 10 \<le> length c) (map (strip ex_lib) ex_two_answers)))
   = [ascii ''short answer'', ascii ''a much longer answer'']"
  by (simp add: ex_two_answers_def ex_two_strip ex_two_normalize ex_two_mask length_ascii
      ascii_eq_iff)

lemma ex_later_kept:
  "map (mask_sensitive_content ex_lib)
     (dedup_by (normalized_form ex_lib)
        (filter (\<lambda>c. 10 \<le> length c \<and> normalized_form ex_lib c \<notin> {ascii ''great teamwork here''})
           (map (strip ex_lib) [ascii ''great  TEAMWORK here'', ascii ''Need more training''])))
   = [ascii ''Need more training'']"
  by (simp add: ex_open_strip ex_open_normalize ex_open_mask length_ascii ascii_eq_iff)

theorem free_text_retained_witness:
  "fst (preprocess_answer_list ex_lib ex_culture_answers {})
     = [ascii ''this is a sufficiently long response about culture'']
   \<and> fst (preprocess_answer_list ex_lib ex_two_answers {})
       = [ascii ''short answer'', ascii ''a much longer answer'']
   \<and> length ex_many_answers = 21
   \<and> length (fst (preprocess_answer_list ex_lib ex_many_answers {})) = 20
   \<and> sorted_wrt (\<lambda>a b. length b \<le> length a)
         (fst (preprocess_answer_list ex_lib ex_many_answers {}))
   \<and> mset (fst (preprocess_answer_list ex_lib ex_many_answers {})) \<subseteq># mset ex_many_answers
   \<and> fst (preprocess_answer_list ex_lib
         [ascii ''great  TEAMWORK here'', ascii ''Need more training''] {ascii ''great teamwork here''})
       = [ascii ''Need more training'']"
proof -
  have e: "(\<lambda>c. 10 \<le> length c \<and> normalized_form ex_lib c \<notin> {}) = (\<lambda>c. 10 \<le> length c)"
    by simp
  show ?thesis
    using free_text_retained [of ex_lib "{}" ex_two_answers]
      free_text_retained [of ex_lib "{}" ex_many_answers]
      free_text_retained [of ex_lib "{ascii ''great teamwork here''}"
        "[ascii ''great  TEAMWORK here'', ascii ''Need more training'']"]
      ex_culture_retained
    unfolding Let_def e ex_two_kept ex_many_kept ex_later_kept
    by (simp add: ex_many_length length_ascii)
qed

text \<open>The claim as stated fails on \<open>ex_two_answers\<close>: the response of 12 characters is
  retained before the response of 20 characters, so the retained responses are not
  ordered by length descending.\<close>

theorem free_text_retained_counterexample:
  "fst (preprocess_answer_list ex_lib ex_two_answers {})
     = [ascii ''short answer'', ascii ''a much longer answer'']
   \<and> length (ascii ''short answer'') < length (ascii ''a much longer answer'')"
  by (simp add: ex_two_retained length_ascii)

section \<open>Free-text answers across questions\<close>

lemma dedup_by_subset: "set (dedup_by f xs) \<subseteq> set xs"
proof (induction "length xs" arbitrary: xs rule: less_induct)
  case less
  show ?case
  proof (cases xs)
    case Nil
    then show ?thesis by simp
  next
    case (Cons x ys)
    have "length (filter (\<lambda>y. f y \<noteq> f x) ys) < length xs"
      using Cons by (simp add: le_imp_less_Suc)
    then have "set (dedup_by f (filter (\<lambda>y. f y \<noteq> f x) ys)) \<subseteq> set (filter (\<lambda>y. f y \<noteq> f x) ys)"
      by (rule less)
    with Cons show ?thesis by auto
  qed
qed

lemma preprocess_origin:
  assumes "x \<in> set (fst (preprocess_answer_list L raw g))"
  shows "\<exists>a \<in> set raw. x = mask_sensitive_content L (strip L a)
           \<and> 10 \<le> length (strip L a) \<and> normalized_form L (strip L a) \<notin> g"
proof -
  let ?kept = "map (mask_sensitive_content L) (retained L g raw)"
  have "set (fst (preprocess_answer_list L raw g)) \<subseteq> set ?kept"
  proof (cases "20 < length ?kept")
    case True
    then have "fst (preprocess_answer_list L raw g) = take 20 (sort_key (\<lambda>a. - int (length a)) ?kept)"
      by (simp add: preprocess_fst Let_def)
    moreover have "set (take 20 (sort_key (\<lambda>a. - int (length a)) ?kept)) \<subseteq> set (sort_key (\<lambda>a. - int (length a)) ?kept)"
      by (rule set_take_subset)
    ultimately show ?thesis by simp
  next
    case False
    then show ?thesis by (simp add: preprocess_fst Let_def)
  qed
  with assms have "x \<in> set ?kept" by blast
  then obtain c where c: "c \<in> set (retained L g raw)" "x = mask_sensitive_content L c" by auto
  have "set (retained L g raw) \<subseteq> set (eligible L g raw)"
    unfolding retained_def by (rule dedup_by_subset)
  with c(1) have "c \<in> set (eligible L g raw)" by (rule rev_subsetD)
  then have "c \<in> strip L ` set raw" "10 \<le> length c" "normalized_form L c \<notin> g"
    by (simp_all add: eligible_def)
  then obtain a where "a \<in> set raw" "c = strip L a" "10 \<le> length c" "normalized_form L c \<notin> g"
    by (elim imageE)
  with c(2) show ?thesis by (intro bexI [of _ a]) simp_all
qed

lemma used_by_snoc:
  "used_by L (blocks @ [b]) = used_by L blocks \<union> normalized_form L ` set (take 3 (ab_answers b))"
  by (auto simp: used_by_def)

lemma subjective_loop_invariant:
  assumes "subjective_loop L df items (sd, used_by L sd) = (sd', g')"
    and "\<forall>j < length sd. block_ok L df (used_by L (take j sd)) (sd ! j)"
  shows "g' = used_by L sd' \<and> (\<forall>j < length sd'. block_ok L df (used_by L (take j sd')) (sd' ! j))"
  using assms
proof (induction items arbitrary: sd)
  case Nil
  then show ?case by auto
next
  case (Cons item items)
  show ?case
  proof (cases "\<exists>h. header_name item = Some h \<and> h \<in> set (columns df) \<and> dropna (series df h) \<noteq> []")
    case False
    then have "subjective_loop L df (item # items) (sd, used_by L sd)
        = subjective_loop L df items (sd, used_by L sd)"
      by (cases "header_name item") (auto simp: Let_def)
    with Cons.prems(1) have "subjective_loop L df items (sd, used_by L sd) = (sd', g')" by simp
    then show ?thesis using Cons.prems(2) by (rule Cons.IH)
  next
    case True
    then obtain h where h: "header_name item = Some h" "h \<in> set (columns df)"
      "dropna (series df h) \<noteq> []" by blast
    let ?raw = "dropna (series df h)"
    let ?g = "used_by L sd"
    let ?b = "\<lparr>ab_header = Some h, ab_title = question_name item,
               ab_category = Some (minor item),
               ab_answers = fst (preprocess_answer_list L ?raw ?g)\<rparr>"
    have step: "subjective_loop L df (item # items) (sd, ?g)
        = subjective_loop L df items (sd @ [?b], snd (preprocess_answer_list L ?raw ?g))"
      using h by (simp add: Let_def split: prod.splits)
    have g: "snd (preprocess_answer_list L ?raw ?g) = used_by L (sd @ [?b])"
      by (simp add: preprocess_snd used_by_snoc)
    have ok: "block_ok L df ?g ?b"
      unfolding block_ok_def using preprocess_origin [of _ L ?raw ?g] by auto
    have inv: "\<forall>j < length (sd @ [?b]). block_ok L df (used_by L (take j (sd @ [?b]))) ((sd @ [?b]) ! j)"
    proof (intro allI impI)
      fix j assume j: "j < length (sd @ [?b])"
      show "block_ok L df (used_by L (take j (sd @ [?b]))) ((sd @ [?b]) ! j)"
      proof (cases "j < length sd")
        case True
        then show ?thesis using Cons.prems(2) by (simp add: nth_append)
      next
        case False
        with j have "j = length sd" by simp
        then show ?thesis using ok by simp
      qed
    qed
    from Cons.prems(1) have "subjective_loop L df items (sd @ [?b], used_by L (sd @ [?b])) = (sd', g')"
      unfolding step g .
    then show ?thesis using inv by (rule Cons.IH)
  qed
qed

text \<open>
  C10. Free-text deduplication is global across the questions of one report: when the
  loop over the free-text items has produced the blocks \<open>blocks\<close>, the shared set holds
  exactly the normalized forms of the first three retained responses of every block,
  and every response retained for a later question \<open>j\<close> is the masked form of a raw
  response of that question whose normalized form matches none of the first three
  retained responses of an earlier question \<open>i\<close>: a response that matches one is
  excluded.
\<close>

theorem global_dedup_across_questions:
  assumes "subjective_loop L df items ([], {}) = (blocks, g)" "i < j" "j < length blocks"
  shows "g = (\<Union>b \<in> set blocks. normalized_form L ` set (take 3 (ab_answers b)))
     \<and> (\<exists>h. ab_header (blocks ! j) = Some h \<and>
          (\<forall>x \<in> set (ab_answers (blocks ! j)). \<exists>a \<in> set (dropna (series df h)).
              x = mask_sensitive_content L (strip L a)
              \<and> normalized_form L (strip L a) \<notin> normalized_form L ` set (take 3 (ab_answers (blocks ! i)))))"
proof -
  have "subjective_loop L df items ([], used_by L []) = (blocks, g)"
    using assms(1) by (simp add: used_by_def)
  moreover have "\<forall>j < length ([] :: answer_block list). block_ok L df (used_by L (take j [])) ([] ! j)"
    by simp
  ultimately have inv: "g = used_by L blocks"
    "\<forall>j < length blocks. block_ok L df (used_by L (take j blocks)) (blocks ! j)"
    using subjective_loop_invariant [of L df items "[]" blocks g] by blast+
  from inv(2) assms(3) have ok: "block_ok L df (used_by L (take j blocks)) (blocks ! j)" by blast
  have "blocks ! i \<in> set (take j blocks)"
    using assms(2,3) by (metis length_take min.absorb4 nth_mem nth_take)
  then have sub: "normalized_form L ` set (take 3 (ab_answers (blocks ! i))) \<subseteq> used_by L (take j blocks)"
    unfolding used_by_def by blast
  from ok obtain h where h: "ab_header (blocks ! j) = Some h"
    "\<forall>x \<in> set (ab_answers (blocks ! j)). \<exists>a \<in> set (dropna (series df h)).
        x = mask_sensitive_content L (strip L a) \<and> normalized_form L (strip L a) \<notin> used_by L (take j blocks)"
    unfolding block_ok_def by blast
  have "\<forall>x \<in> set (ab_answers (blocks ! j)). \<exists>a \<in> set (dropna (series df h)).
        x = mask_sensitive_content L (strip L a)
        \<and> normalized_form L (strip L a) \<notin> normalized_form L ` set (take 3 (ab_answers (blocks ! i)))"
  proof
    fix x assume "x \<in> set (ab_answers (blocks ! j))"
    with h(2) obtain a where a: "a \<in> set (dropna (series df h))"
      "x = mask_sensitive_content L (strip L a)" "normalized_form L (strip L a) \<notin> used_by L (take j blocks)"
      by blast
    from a(3) sub have "normalized_form L (strip L a) \<notin> normalized_form L ` set (take 3 (ab_answers (blocks ! i)))"
      by blast
    with a(1,2) show "\<exists>a \<in> set (dropna (series df h)).
        x = mask_sensitive_content L (strip L a)
        \<and> normalized_form L (strip L a) \<notin> normalized_form L ` set (take 3 (ab_answers (blocks ! i)))"
      by blast
  qed
  with h(1) inv(1) show ?thesis unfolding used_by_def by blast
qed

lemma ex_open_series:
  "dropna (series ex_open_df (ascii ''NO40'')) = [ascii ''Great teamwork here'']"
  "dropna (series ex_open_df (ascii ''NO41''))
     = [ascii ''great  TEAMWORK here'', ascii ''Need more training'']"
  by (simp_all add: ex_open_df_def series_def cell_at_def dropna_def List.map_filter_simps
      ascii_eq_iff)

lemma ex_open_loop:
  "subjective_loop ex_lib ex_open_df ex_open_items ([], {}) =
     ([\<lparr>ab_header = Some (ascii ''NO40''), ab_title = Some (ascii ''strengths''),
        ab_category = Some None, ab_answers = [ascii ''Great teamwork here'']\<rparr>,
       \<lparr>ab_header = Some (ascii ''NO41''), ab_title = Some (ascii ''needs''),
        ab_category = Some None, ab_answers = [ascii ''Need more training'']\<rparr>],
      {ascii ''great teamwork here'', ascii ''need more training''})"
proof -
  have c: "ascii ''NO40'' \<in> set (columns ex_open_df)" "ascii ''NO41'' \<in> set (columns ex_open_df)"
    by (simp_all add: ex_open_df_def)
  show ?thesis
    by (simp add: ex_open_items_def c ex_open_series ex_first_question ex_later_question)
qed

text \<open>On the example the second question has a response that differs from the first
  retained response of the first question only in case and spacing; it is not
  retained for the second question.\<close>

theorem global_dedup_across_questions_witness:
  "subjective_loop ex_lib ex_open_df ex_open_items ([], {}) =
     ([\<lparr>ab_header = Some (ascii ''NO40''), ab_title = Some (ascii ''strengths''),
        ab_category = Some None, ab_answers = [ascii ''Great teamwork here'']\<rparr>,
       \<lparr>ab_header = Some (ascii ''NO41''), ab_title = Some (ascii ''needs''),
        ab_category = Some None, ab_answers = [ascii ''Need more training'']\<rparr>],
      {ascii ''great teamwork here'', ascii ''need more training''})
   \<and> dropna (series ex_open_df (ascii ''NO41''))
       = [ascii ''great  TEAMWORK here'', ascii ''Need more training'']
   \<and> normalized_form ex_lib (strip ex_lib (ascii ''great  TEAMWORK here''))
       = normalized_form ex_lib (ascii ''Great teamwork here'')"
  using global_dedup_across_questions [OF ex_open_loop, of 0 1] ex_open_loop
  by (simp add: ex_open_series ex_open_strip ex_open_normalize)

end
